theory Spec2Isabelle
  imports Complex_Main "HOL-Library.Product_Lexorder"
begin

section \<open>Values: decimals, dates, errors\<close>

text \<open>
  The application computes with Python's \<^verbatim>\<open>Decimal\<close> and \<^verbatim>\<open>datetime.date\<close>.
  A finite \<^verbatim>\<open>Decimal\<close> is modelled by the rational number it denotes (type \<open>decimal\<close>);
  the stored money fields and meter readings are such numbers, of at most 12 digits. The
  occupancy engine and the invoice service add, multiply and compare them exactly, which is
  what Python computes as long as a result fits the 28 significant digits of the default
  decimal context. The metering calculator multiplies by a rate it reads from a free text,
  so its arithmetic is modelled with the rounding and the exceptions of that context
  (below), and its rate may be one of the special values of \<^verbatim>\<open>Decimal\<close>.

  A date is the triple (year, month, day); Python orders dates as it orders these triples,
  which is the lexicographic order of \<open>Product_Lexorder\<close>.
\<close>

type_synonym decimal = rat

type_synonym date = "int \<times> int \<times> int"

datatype error =
    ValidationError string
  | ValueError string
  | IntegrityError string
  | DoesNotExist string
  | OverflowError
  | InvalidOperation
  | DecimalOverflow

definition year_of :: "date \<Rightarrow> int" where
  "year_of d = fst d"

definition month_of :: "date \<Rightarrow> int" where
  "month_of d = fst (snd d)"

definition day_of :: "date \<Rightarrow> int" where
  "day_of d = snd (snd d)"

definition is_leap :: "int \<Rightarrow> bool" where
  "is_leap y \<longleftrightarrow> y mod 4 = 0 \<and> (y mod 100 \<noteq> 0 \<or> y mod 400 = 0)"

definition days_in_month :: "int \<Rightarrow> int \<Rightarrow> int" where
  "days_in_month y m =
     (if m = 2 then (if is_leap y then 29 else 28)
      else if m = 4 \<or> m = 6 \<or> m = 9 \<or> m = 11 then 30
      else 31)"

definition valid_date :: "date \<Rightarrow> bool" where
  "valid_date d \<longleftrightarrow>
     1 \<le> year_of d \<and> year_of d \<le> 9999 \<and> 1 \<le> month_of d \<and> month_of d \<le> 12 \<and>
     1 \<le> day_of d \<and> day_of d \<le> days_in_month (year_of d) (month_of d)"

text \<open>
  \<^verbatim>\<open>date(year, month, day)\<close>: the constructor raises \<^verbatim>\<open>ValueError\<close> outside the calendar
  (years 1 to 9999); one message stands for the messages Python gives.
\<close>

definition date :: "int \<Rightarrow> int \<Rightarrow> int \<Rightarrow> error + date" where
  "date y m d =
     (if valid_date (y, m, d) then Inr (y, m, d)
      else Inl (ValueError ''date value out of range''))"

definition next_day :: "date \<Rightarrow> date" where
  "next_day d =
     (if day_of d < days_in_month (year_of d) (month_of d)
        then (year_of d, month_of d, day_of d + 1)
      else if month_of d < 12 then (year_of d, month_of d + 1, 1)
      else (year_of d + 1, 1, 1))"

definition prev_day :: "date \<Rightarrow> date" where
  "prev_day d =
     (if 1 < day_of d then (year_of d, month_of d, day_of d - 1)
      else if 1 < month_of d
        then (year_of d, month_of d - 1, days_in_month (year_of d) (month_of d - 1))
      else (year_of d - 1, 12, 31))"

text \<open>
  \<^verbatim>\<open>d + timedelta(days=n)\<close> and \<^verbatim>\<open>d - timedelta(days=n)\<close> for \<open>n \<ge> 0\<close>: the date \<open>n\<close>
  days later (earlier); \<^verbatim>\<open>OverflowError\<close> when the result leaves the years 1 to 9999.
\<close>

fun add_days :: "date \<Rightarrow> nat \<Rightarrow> error + date" where
  "add_days d 0 = Inr d"
| "add_days d (Suc n) =
     (if valid_date (next_day d) then add_days (next_day d) n else Inl OverflowError)"

fun sub_days :: "date \<Rightarrow> nat \<Rightarrow> error + date" where
  "sub_days d 0 = Inr d"
| "sub_days d (Suc n) =
     (if valid_date (prev_day d) then sub_days (prev_day d) n else Inl OverflowError)"

subsection \<open>The decimal context\<close>

text \<open>
  Python's default context, which the application never changes: 28 significant digits,
  rounding \<^verbatim>\<open>ROUND_HALF_EVEN\<close>, exponents from \<^verbatim>\<open>Emin\<close> to \<^verbatim>\<open>Emax\<close>, traps for
  \<^verbatim>\<open>InvalidOperation\<close> and \<^verbatim>\<open>Overflow\<close> (model: the errors \<open>InvalidOperation\<close> and
  \<open>DecimalOverflow\<close>, both \<^verbatim>\<open>ArithmeticError\<close>s and no \<^verbatim>\<open>ValueError\<close>), none for underflow.
\<close>

definition prec :: int where
  "prec = 28"

definition Emax :: int where
  "Emax = 999999"

definition Emin :: int where
  "Emin = - 999999"

definition Etiny :: int where
  "Etiny = Emin - (prec - 1)"

text \<open>The number of decimal digits of a positive integer.\<close>

function ndigits :: "int \<Rightarrow> int" where
  "ndigits n = (if n < 10 then 1 else 1 + ndigits (n div 10))"
  by pat_completeness auto

termination
  by (relation "measure nat") auto

declare ndigits.simps [simp del]

text \<open>
  \<^verbatim>\<open>x.adjusted()\<close> for \<open>x \<noteq> 0\<close>: the exponent of the leading digit of \<open>x\<close>, that is the
  integer \<open>a\<close> with \<open>10\<^sup>a \<le> \<bar>x\<bar> < 10\<^sup>a\<^sup>+\<^sup>1\<close> (lemmas \<open>adjusted_bounds\<close>, \<open>adjusted_unique\<close>).
\<close>

definition adjusted :: "decimal \<Rightarrow> int" where
  "adjusted x =
     (if 1 \<le> \<bar>x\<bar> then ndigits \<lfloor>\<bar>x\<bar>\<rfloor> - 1
      else - ndigits (\<lceil>1 / \<bar>x\<bar>\<rceil> - 1))"

text \<open>The nearest integer, a tie going to the even one (\<^verbatim>\<open>ROUND_HALF_EVEN\<close>).\<close>

definition round_half_even :: "rat \<Rightarrow> int" where
  "round_half_even y =
     (let f = \<lfloor>y\<rfloor>; d = y - of_int f
      in if d < 1 / 2 then f else if 1 / 2 < d then f + 1 else if even f then f else f + 1)"

text \<open>
  What the context makes of the exact result \<open>x\<close> of an addition, subtraction or
  multiplication of finite decimals: \<open>x\<close> rounded to a multiple of \<open>10\<^sup>e\<close>, where \<open>e\<close> is 27
  places below the leading digit of \<open>x\<close> but not below \<^verbatim>\<open>Etiny\<close> (a result too small is
  rounded there without an exception), and \<^verbatim>\<open>decimal.Overflow\<close> when the rounded result
  exceeds the largest exponent.
\<close>

definition context_round :: "decimal \<Rightarrow> error + decimal" where
  "context_round x =
     (if x = 0 then Inr 0
      else
        (let e = max (adjusted x - (prec - 1)) Etiny;
             r = of_int (round_half_even (x / 10 powi e)) * 10 powi e
         in if Emax < adjusted r then Inl DecimalOverflow else Inr r))"

text \<open>
  A number the context represents exactly: 0, or a number whose leading digit has an
  exponent from \<^verbatim>\<open>Emin\<close> to \<^verbatim>\<open>Emax\<close> and which has no digit more than 27 places below the
  leading one (at most 28 significant digits).
\<close>

definition context_exact :: "decimal \<Rightarrow> bool" where
  "context_exact x \<longleftrightarrow>
     x = 0 \<or>
     (Emin \<le> adjusted x \<and> adjusted x \<le> Emax \<and>
      (let y = x / 10 powi (adjusted x - (prec - 1)) in of_int \<lfloor>y\<rfloor> = y))"

text \<open>
  Rounding to two decimals, half up: the nearest multiple of 0.01, a tie going away from
  zero.
\<close>

definition round_half_up :: "decimal \<Rightarrow> decimal" where
  "round_half_up x =
     (if 0 \<le> x then of_int \<lfloor>x * 100 + 1 / 2\<rfloor> / 100
      else - (of_int \<lfloor>(- x) * 100 + 1 / 2\<rfloor> / 100))"

text \<open>
  \<^verbatim>\<open>x.quantize(Decimal('0.01'), rounding=ROUND_HALF_UP)\<close> for a finite \<open>x\<close>: \<open>x\<close> rounded to
  two decimals half up, and \<^verbatim>\<open>InvalidOperation\<close> when the result, written with two
  decimals, has more than 28 digits.
\<close>

definition quantize_half_up :: "decimal \<Rightarrow> error + decimal" where
  "quantize_half_up x =
     (if 10 ^ 26 \<le> \<bar>round_half_up x\<bar> then Inl InvalidOperation else Inr (round_half_up x))"

text \<open>
  A \<^verbatim>\<open>Decimal\<close> object: a finite number or a special value (a quiet or a signalling NaN,
  or an infinity with its sign, \<open>True\<close> for the negative one).
\<close>

datatype Decimal = Finite decimal | NaN | SNaN | Infinity bool

section \<open>The metering calculator (core/billing/electricity.py)\<close>

text \<open>
  The readings are finite decimals (they are read from a \<^verbatim>\<open>DecimalField\<close>); the rate is any
  \<^verbatim>\<open>Decimal\<close>. Multiplying the finite \<open>units\<close> by a quiet NaN gives NaN, which \<^verbatim>\<open>quantize\<close>
  returns as it is; a signalling NaN raises \<^verbatim>\<open>InvalidOperation\<close> in the multiplication, an
  infinity there (0 units) or in \<^verbatim>\<open>quantize\<close>.
\<close>

record bill =
  units :: decimal
  rate :: Decimal
  total :: Decimal

definition negative_delta_msg :: string where
  "negative_delta_msg =
     ''Negative delta: current reading cannot be less than previous reading''"

definition compute_units :: "decimal option \<Rightarrow> decimal option \<Rightarrow> error + decimal" where
  "compute_units previous current =
     (case previous of
        None \<Rightarrow> Inr 0
      | Some p \<Rightarrow>
          (case current of
             None \<Rightarrow> Inr 0
           | Some c \<Rightarrow>
               (case context_round (c - p) of
                  Inl e \<Rightarrow> Inl e
                | Inr delta \<Rightarrow>
                    if delta < 0 then Inl (ValueError negative_delta_msg) else Inr delta)))"

definition compute_bill ::
  "decimal option \<Rightarrow> decimal option \<Rightarrow> Decimal \<Rightarrow> error + bill" where
  "compute_bill previous_reading current_reading rt =
     (case compute_units previous_reading current_reading of
        Inl e \<Rightarrow> Inl e
      | Inr u \<Rightarrow>
          (case rt of
             Finite r \<Rightarrow>
               (case context_round (u * r) of
                  Inl e \<Rightarrow> Inl e
                | Inr product \<Rightarrow>
                    (case quantize_half_up product of
                       Inl e \<Rightarrow> Inl e
                     | Inr t \<Rightarrow> Inr \<lparr>units = u, rate = rt, total = Finite t\<rparr>))
           | NaN \<Rightarrow> Inr \<lparr>units = u, rate = rt, total = NaN\<rparr>
           | SNaN \<Rightarrow> Inl InvalidOperation
           | Infinity negative \<Rightarrow> Inl InvalidOperation))"

section \<open>The entity store (core/models.py)\<close>

text \<open>
  Each Django model is a record of the fields the billing and occupancy rules read or
  write, and each table is the list of its rows. Foreign keys hold the primary key of the
  row they reference. Display-only fields (timestamps, notes, the JSON \<^verbatim>\<open>meta\<close> of an
  invoice, which stores \<^verbatim>\<open>float\<close> copies of the billing inputs) are left out.
\<close>

datatype room_status = Vacant | Occupied | Maintenance

datatype lease_status = Active | Ended

datatype invoice_type = Rent | Electricity | Combined

record room =
  room_pk :: nat
  room_number :: string
  room_status :: room_status

record tenant =
  tenant_pk :: nat
  full_name :: string

text \<open>A lease object that was never saved has no primary key (\<open>lease_pk = None\<close>).\<close>

record lease =
  lease_pk :: "nat option"
  lease_tenant :: nat
  lease_room :: nat
  start_date :: date
  end_date :: "date option"
  monthly_rent :: decimal
  deposit :: decimal
  billing_day :: int
  lease_status :: lease_status

record rent_payment =
  payment_lease :: nat
  paid_on :: date
  amount :: decimal
  pay_method :: string

record meter_reading =
  reading_room :: nat
  reading_date :: date
  reading_value :: decimal

record invoice =
  invoice_pk :: nat
  invoice_room :: nat
  invoice_month :: date
  invoice_type :: invoice_type
  subtotal :: decimal
  tax :: decimal
  invoice_total :: decimal

text \<open>
  The label of an invoice item is a formatted string in the source; the model keeps the
  values that are formatted into it:
  \<^item> \<open>RentFor m\<close> is \<^verbatim>\<open>f"Rent for {month.strftime('%B %Y')}"\<close>;
  \<^item> \<open>ElectricityUnits u\<close> is \<^verbatim>\<open>f"Electricity ({electricity_units} units)"\<close>;
  \<^item> \<open>ElectricityBill (y, m) prev cur u r\<close> is
    \<^verbatim>\<open>f"Electricity ({month_str}): prev {prev or 'N/A'}, curr {cur or 'N/A'}, units {u} @ {r}"\<close>.
\<close>

datatype item_label =
    RentFor date
  | ElectricityUnits decimal
  | ElectricityBill "int \<times> int" "decimal option" "decimal option" decimal decimal

record invoice_item =
  item_pk :: nat
  item_invoice :: nat
  item_label :: item_label
  qty :: decimal
  item_rate :: decimal
  item_amount :: decimal

text \<open>
  The value of a \<^verbatim>\<open>Setting\<close> row is a text. The model holds it as what the constructor
  \<^verbatim>\<open>Decimal(value)\<close> makes of it: the \<^verbatim>\<open>Decimal\<close> it reads (\<open>Literal\<close>), or \<open>Malformed\<close> when
  the constructor raises \<^verbatim>\<open>InvalidOperation\<close>, as it does for \<^verbatim>\<open>'abc'\<close>, \<^verbatim>\<open>'10,50'\<close> and the
  empty text. The settings endpoint of the API stores any text.
\<close>

datatype decimal_text = Literal Decimal | Malformed

text \<open>
  The database: the tables, the \<^verbatim>\<open>Setting\<close> rows and the sequences that hand out the
  primary keys of \<^verbatim>\<open>AutoField\<close>s.
\<close>

record db =
  rooms :: "room list"
  tenants :: "tenant list"
  leases :: "lease list"
  rent_payments :: "rent_payment list"
  meter_readings :: "meter_reading list"
  invoices :: "invoice list"
  invoice_items :: "invoice_item list"
  settings :: "(string \<times> decimal_text) list"
  lease_seq :: nat
  invoice_seq :: nat
  item_seq :: nat

subsection \<open>Query sets\<close>

text \<open>
  \<^verbatim>\<open>.order_by('-key')\<close> sorts by descending key (rows with equal keys keep their table
  order; a database leaves their order open). \<^verbatim>\<open>.first()\<close> is the first row or \<^verbatim>\<open>None\<close>.
\<close>

fun insert_desc :: "('a \<Rightarrow> 'k::linorder) \<Rightarrow> 'a \<Rightarrow> 'a list \<Rightarrow> 'a list" where
  "insert_desc k x [] = [x]"
| "insert_desc k x (y # ys) =
     (if k y \<le> k x then x # y # ys else y # insert_desc k x ys)"

definition order_by_desc :: "('a \<Rightarrow> 'k::linorder) \<Rightarrow> 'a list \<Rightarrow> 'a list" where
  "order_by_desc k xs = foldr (insert_desc k) xs []"

definition first :: "'a list \<Rightarrow> 'a option" where
  "first xs = (case xs of [] \<Rightarrow> None | x # _ \<Rightarrow> Some x)"

definition get_room :: "db \<Rightarrow> nat \<Rightarrow> room option" where
  "get_room s rid = find (\<lambda>r. room_pk r = rid) (rooms s)"

definition get_tenant :: "db \<Rightarrow> nat \<Rightarrow> tenant option" where
  "get_tenant s tid = find (\<lambda>t. tenant_pk t = tid) (tenants s)"

subsection \<open>Reading the meter (core/billing/electricity.py, continued)\<close>

definition digit_char :: "nat \<Rightarrow> char" where
  "digit_char n = char_of (48 + n)"

fun str_nat :: "nat \<Rightarrow> string" where
  "str_nat n = (if n < 10 then [digit_char n] else str_nat (n div 10) @ [digit_char (n mod 10)])"

declare str_nat.simps [simp del]

text \<open>
  \<^verbatim>\<open>get_rate()\<close>: the text of the setting (\<^verbatim>\<open>'0'\<close> when there is none) handed to \<^verbatim>\<open>Decimal\<close>.
  The handler of \<^verbatim>\<open>get_rate\<close> catches \<^verbatim>\<open>ValueError\<close> and \<^verbatim>\<open>TypeError\<close>; the exception the
  constructor raises for a malformed text is \<^verbatim>\<open>InvalidOperation\<close>, which passes through.
\<close>

definition get_rate :: "db \<Rightarrow> error + Decimal" where
  "get_rate s =
     (case map_of (settings s) ''electricity_rate_per_unit'' of
        None \<Rightarrow> Inr (Finite 0)
      | Some (Literal d) \<Rightarrow> Inr d
      | Some Malformed \<Rightarrow> Inl InvalidOperation)"

definition get_month_readings ::
  "nat \<Rightarrow> int \<Rightarrow> int \<Rightarrow> db \<Rightarrow> error + (decimal option \<times> decimal option)" where
  "get_month_readings rid y m s =
     (case date y m 1 of
        Inl e \<Rightarrow> Inl e
      | Inr first_of_month \<Rightarrow>
          (let previous_reading =
                 first (order_by_desc reading_date
                   (filter (\<lambda>x. reading_room x = rid \<and> reading_date x < first_of_month)
                      (meter_readings s)))
           in
           (case (if m = 12 then date (y + 1) 1 1 else date y (m + 1) 1) of
              Inl e \<Rightarrow> Inl e
            | Inr first_of_next_month \<Rightarrow>
                (let current_reading =
                       first (order_by_desc reading_date
                         (filter (\<lambda>x. reading_room x = rid \<and> first_of_month \<le> reading_date x
                                    \<and> reading_date x < first_of_next_month)
                            (meter_readings s)))
                 in Inr (map_option reading_value previous_reading,
                         map_option reading_value current_reading)))))"

text \<open>
  The dictionary \<^verbatim>\<open>calc_month_bill\<close> returns: the bill, the room, the month, both readings
  and, only when the readings go backwards, the key \<^verbatim>\<open>'error'\<close> (\<open>bill_error = Some msg\<close>).
  The rate is read after the readings and before the \<^verbatim>\<open>try\<close> block, whose handler catches
  \<^verbatim>\<open>ValueError\<close> only.
\<close>

record month_bill = bill +
  bill_room_id :: nat
  bill_month :: "int \<times> int"
  previous_reading :: "decimal option"
  current_reading :: "decimal option"
  bill_error :: "string option"

definition calc_month_bill :: "nat \<Rightarrow> int \<Rightarrow> int \<Rightarrow> db \<Rightarrow> error + month_bill" where
  "calc_month_bill rid y m s =
     (case get_room s rid of
        None \<Rightarrow> Inl (ValueError (''Room with id '' @ str_nat rid @ '' does not exist''))
      | Some r \<Rightarrow>
          (case get_month_readings rid y m s of
             Inl e \<Rightarrow> Inl e
           | Inr (prev, cur) \<Rightarrow>
               (case get_rate s of
                  Inl e \<Rightarrow> Inl e
                | Inr rt \<Rightarrow>
                    (case compute_bill prev cur rt of
                       Inl (ValueError msg) \<Rightarrow>
                         Inr \<lparr>units = 0, rate = rt, total = Finite 0,
                              bill_room_id = rid, bill_month = (y, m),
                              previous_reading = prev, current_reading = cur,
                              bill_error = Some msg\<rparr>
                     | Inl e \<Rightarrow> Inl e
                     | Inr b \<Rightarrow>
                         Inr \<lparr>units = units b, rate = rate b, total = total b,
                              bill_room_id = rid, bill_month = (y, m),
                              previous_reading = prev, current_reading = cur,
                              bill_error = None\<rparr>))))"

section \<open>The occupancy engine (core/models.py, core/services.py)\<close>

subsection \<open>Writing rows\<close>

text \<open>
  \<^verbatim>\<open>room.status = st; room.save()\<close> for the room a lease references: the row with that
  primary key gets the new status. The foreign key is protected, so the row exists.
\<close>

definition Room_set_status :: "nat \<Rightarrow> room_status \<Rightarrow> db \<Rightarrow> db" where
  "Room_set_status rid st s =
     s\<lparr>rooms := map (\<lambda>r. if room_pk r = rid then r\<lparr>room_status := st\<rparr> else r) (rooms s)\<rparr>"

text \<open>
  The constraints migration 0003 puts on the lease table: a partial unique index (one
  row per room among the rows with \<^verbatim>\<open>status='active'\<close>) and two row checks.
\<close>

definition unique_active_lease_per_room :: "lease list \<Rightarrow> bool" where
  "unique_active_lease_per_room ls \<longleftrightarrow>
     distinct (map lease_room (filter (\<lambda>l. lease_status l = Active) ls))"

definition end_date_after_start_date :: "lease \<Rightarrow> bool" where
  "end_date_after_start_date l \<longleftrightarrow>
     (case end_date l of None \<Rightarrow> True | Some e \<Rightarrow> start_date l < e)"

definition monthly_rent_positive :: "lease \<Rightarrow> bool" where
  "monthly_rent_positive l \<longleftrightarrow> 0 < monthly_rent l"

text \<open>
  \<^verbatim>\<open>super().save()\<close> of a lease: an object without primary key is inserted under the next
  key of the sequence; an object with a primary key replaces the row of that key, or is
  inserted when there is none. The database refuses a write that breaks a constraint
  (\<^verbatim>\<open>IntegrityError\<close>) and then leaves the table as it was.
\<close>

definition Model_save_lease :: "lease \<Rightarrow> db \<Rightarrow> (error + lease) \<times> db" where
  "Model_save_lease l s =
     (let l' = (case lease_pk l of None \<Rightarrow> l\<lparr>lease_pk := Some (lease_seq s)\<rparr> | Some k \<Rightarrow> l);
          ls' = (if lease_pk l' \<in> set (map lease_pk (leases s))
                 then map (\<lambda>x. if lease_pk x = lease_pk l' then l' else x) (leases s)
                 else leases s @ [l']);
          seq' = (if lease_pk l = None then Suc (lease_seq s) else lease_seq s)
      in
      if lease_pk l = None \<and> lease_pk l' \<in> set (map lease_pk (leases s))
        then (Inl (IntegrityError ''core_lease_pkey''), s)
      else if \<not> end_date_after_start_date l'
        then (Inl (IntegrityError ''end_date_after_start_date''), s)
      else if \<not> monthly_rent_positive l'
        then (Inl (IntegrityError ''monthly_rent_positive''), s)
      else if \<not> unique_active_lease_per_room ls'
        then (Inl (IntegrityError ''unique_active_lease_per_room''), s)
      else (Inr l', s\<lparr>leases := ls', lease_seq := seq'\<rparr>))"

text \<open>
  \<^verbatim>\<open>Invoice.objects.create(...)\<close> under \<^verbatim>\<open>unique_together = ['room', 'month', 'type']\<close>, and
  \<^verbatim>\<open>InvoiceItem.objects.create(...)\<close>. The rows hold the values handed to \<^verbatim>\<open>create\<close>.
\<close>

definition Invoice_create ::
  "nat \<Rightarrow> date \<Rightarrow> invoice_type \<Rightarrow> decimal \<Rightarrow> decimal \<Rightarrow> decimal \<Rightarrow> db \<Rightarrow> (error + invoice) \<times> db" where
  "Invoice_create rid mth ty sub tx tot s =
     (if filter (\<lambda>i. invoice_room i = rid \<and> invoice_month i = mth \<and> invoice_type i = ty)
           (invoices s) \<noteq> []
        then (Inl (IntegrityError ''core_invoice_room_month_type_uniq''), s)
      else
        (let row = \<lparr>invoice_pk = invoice_seq s, invoice_room = rid, invoice_month = mth,
                     invoice_type = ty, subtotal = sub, tax = tx, invoice_total = tot\<rparr>
         in (Inr row, s\<lparr>invoices := invoices s @ [row], invoice_seq := Suc (invoice_seq s)\<rparr>)))"

definition InvoiceItem_create ::
  "nat \<Rightarrow> item_label \<Rightarrow> decimal \<Rightarrow> decimal \<Rightarrow> decimal \<Rightarrow> db \<Rightarrow> db" where
  "InvoiceItem_create iid lbl q r a s =
     s\<lparr>invoice_items := invoice_items s @
          [\<lparr>item_pk = item_seq s, item_invoice = iid, item_label = lbl,
            qty = q, item_rate = r, item_amount = a\<rparr>],
       item_seq := Suc (item_seq s)\<rparr>"

text \<open>
  A \<^verbatim>\<open>DecimalField\<close> prepares the value it is given with \<^verbatim>\<open>to_python\<close>, which in current
  versions of Django refuses a value that is not finite with a \<^verbatim>\<open>ValidationError\<close>.
\<close>

definition DecimalField_to_python :: "Decimal \<Rightarrow> error + decimal" where
  "DecimalField_to_python d =
     (case d of
        Finite x \<Rightarrow> Inr x
      | _ \<Rightarrow> Inl (ValidationError ''value must be a decimal number.''))"

text \<open>\<^verbatim>\<open>@transaction.atomic\<close>: an exception rolls every write of the call back.\<close>

definition atomic :: "(db \<Rightarrow> (error + 'a) \<times> db) \<Rightarrow> db \<Rightarrow> (error + 'a) \<times> db" where
  "atomic f s = (case f s of (Inl e, _) \<Rightarrow> (Inl e, s) | (Inr v, s') \<Rightarrow> (Inr v, s'))"

subsection \<open>Lease.clean and Lease.save\<close>

text \<open>Python's \<^verbatim>\<open>self.pk\<close> as a condition: false for \<^verbatim>\<open>None\<close> and for 0.\<close>

definition pk_set :: "lease \<Rightarrow> bool" where
  "pk_set l = (case lease_pk l of None \<Rightarrow> False | Some k \<Rightarrow> k \<noteq> 0)"

text \<open>
  \<open>Lease_clean\<close> returns the exception \<^verbatim>\<open>clean\<close> raises, or \<open>None\<close> when it returns.
  In the branch for new leases the source excludes \<^verbatim>\<open>pk=None\<close>, which excludes no row.
\<close>

definition Lease_clean :: "lease \<Rightarrow> db \<Rightarrow> error option" where
  "Lease_clean l s =
     (if (case end_date l of None \<Rightarrow> False | Some e \<Rightarrow> e \<le> start_date l)
        then Some (ValidationError ''End date must be after start date.'')
      else if lease_status l = Active \<and> \<not> pk_set l then
        (if filter (\<lambda>x. lease_room x = lease_room l \<and> lease_status x = Active) (leases s) \<noteq> []
           then Some (ValidationError ''This room already has an active lease.'')
         else None)
      else if lease_status l = Active \<and> pk_set l then
        (if filter (\<lambda>x. lease_room x = lease_room l \<and> lease_status x = Active
                       \<and> lease_pk x \<noteq> lease_pk l) (leases s) \<noteq> []
           then Some (ValidationError ''This room already has another active lease.'')
         else None)
      else None)"

definition Lease_save :: "lease \<Rightarrow> db \<Rightarrow> (error + lease) \<times> db" where
  "Lease_save l s =
     (case Lease_clean l s of
        Some e \<Rightarrow> (Inl e, s)
      | None \<Rightarrow>
          (let s1 = (if lease_status l = Active \<and> \<not> pk_set l
                       then Room_set_status (lease_room l) Occupied s
                     else if lease_status l = Ended \<and> pk_set l
                       then Room_set_status (lease_room l) Vacant s
                     else s)
           in Model_save_lease l s1))"

subsection \<open>LeaseService\<close>

text \<open>
  \<^verbatim>\<open>create_lease(tenant, room, start_date, monthly_rent, deposit, billing_day)\<close>; the
  arguments \<^verbatim>\<open>tenant\<close> and \<^verbatim>\<open>room\<close> are model objects.
\<close>

definition create_lease ::
  "tenant \<Rightarrow> room \<Rightarrow> date \<Rightarrow> decimal \<Rightarrow> decimal \<Rightarrow> int \<Rightarrow> db \<Rightarrow> (error + lease) \<times> db" where
  "create_lease tnt rm start rent dep bday =
     atomic (\<lambda>s.
       case first (order_by_desc start_date
              (filter (\<lambda>l. lease_room l = room_pk rm \<and> lease_status l = Active) (leases s))) of
         Some existing_active \<Rightarrow>
           (case get_tenant s (lease_tenant existing_active) of
              None \<Rightarrow> (Inl (DoesNotExist ''Tenant matching query does not exist.''), s)
            | Some t \<Rightarrow>
                (Inl (ValidationError (''Room '' @ room_number rm @
                        '' already has an active lease with '' @ full_name t)), s))
       | None \<Rightarrow>
           if rent \<le> 0 then (Inl (ValidationError ''Monthly rent must be positive''), s)
           else if \<not> (1 \<le> bday \<and> bday \<le> 28)
             then (Inl (ValidationError ''Billing day must be between 1 and 28''), s)
           else
             (case Lease_save
                     \<lparr>lease_pk = None, lease_tenant = tenant_pk tnt, lease_room = room_pk rm,
                      start_date = start, end_date = None, monthly_rent = rent,
                      deposit = dep, billing_day = bday, lease_status = Active\<rparr> s of
                (Inl e, s1) \<Rightarrow> (Inl e, s1)
              | (Inr l, s1) \<Rightarrow>
                  (let s2 = Room_set_status (room_pk rm) Occupied s1 in
                   case date (year_of start) (month_of start) 1 of
                     Inl e \<Rightarrow> (Inl e, s2)
                   | Inr current_month \<Rightarrow>
                       (case Invoice_create (room_pk rm) current_month Rent rent 0 rent s2 of
                          (Inl e, s3) \<Rightarrow> (Inl e, s3)
                        | (Inr invc, s3) \<Rightarrow>
                            (Inr l, InvoiceItem_create (invoice_pk invc)
                                      (RentFor current_month) 1 rent rent s3)))))"

text \<open>
  \<^verbatim>\<open>end_lease(lease, end_date, reason, ended_by)\<close>; the last two arguments are not used by
  the source.
\<close>

definition end_lease :: "lease \<Rightarrow> date \<Rightarrow> db \<Rightarrow> (error + lease) \<times> db" where
  "end_lease l e =
     atomic (\<lambda>s.
       if lease_status l \<noteq> Active then (Inl (ValidationError ''Lease is not active''), s)
       else if e < start_date l
         then (Inl (ValidationError ''End date cannot be before start date''), s)
       else
         (case Lease_save (l\<lparr>lease_status := Ended, end_date := Some e\<rparr>) s of
            (Inl err, s1) \<Rightarrow> (Inl err, s1)
          | (Inr l', s1) \<Rightarrow> (Inr l', Room_set_status (lease_room l') Vacant s1)))"

subsection \<open>InvoiceService\<close>

text \<open>
  \<^verbatim>\<open>create_monthly_invoice(room, month, rent_amount, electricity_units, electricity_rate)\<close>.
  The condition \<^verbatim>\<open>electricity_units and electricity_rate\<close> is false for \<^verbatim>\<open>None\<close> and for 0.
\<close>

definition create_monthly_invoice ::
  "room \<Rightarrow> date \<Rightarrow> decimal \<Rightarrow> decimal option \<Rightarrow> decimal option \<Rightarrow> db \<Rightarrow> (error + invoice) \<times> db" where
  "create_monthly_invoice rm mth rent_amount electricity_units electricity_rate =
     atomic (\<lambda>s.
       let electricity_amount =
             (case (electricity_units, electricity_rate) of
                (Some u, Some r) \<Rightarrow> if u \<noteq> 0 \<and> r \<noteq> 0 then u * r else 0
              | _ \<Rightarrow> 0);
           sub = rent_amount + electricity_amount
       in
       case Invoice_create (room_pk rm) mth Rent sub 0 sub s of
         (Inl e, s1) \<Rightarrow> (Inl e, s1)
       | (Inr invc, s1) \<Rightarrow>
           (let s2 = InvoiceItem_create (invoice_pk invc) (RentFor mth) 1 rent_amount rent_amount s1;
                s3 = (if 0 < electricity_amount then
                        (case (electricity_units, electricity_rate) of
                           (Some u, Some r) \<Rightarrow>
                             InvoiceItem_create (invoice_pk invc) (ElectricityUnits u) u r
                               electricity_amount s2
                         | _ \<Rightarrow> s2)
                      else s2)
            in (Inr invc, s3)))"

section \<open>Views and API endpoints (core/views.py, core/api/api.py)\<close>

text \<open>
  What a request handler answers: a 404, a JSON error body with status 400, the JSON body
  of \<^verbatim>\<open>generate_electricity_invoice\<close> (message and invoice id), the body of the API endpoint
  (status, message and the serialised invoice), a redirect with its flash message, or an
  exception no handler catches.
\<close>

datatype response =
    Http404
  | JsonError string
  | JsonResponse string nat
  | ApiResponse nat string invoice
  | Redirect string
  | Raised error

text \<open>
  \<^verbatim>\<open>generate_electricity_invoice(request, room_id)\<close>; \<open>y\<close> and \<open>m\<close> are the two integers
  parsed from the query parameter \<^verbatim>\<open>month\<close>. The handler of the view catches \<^verbatim>\<open>ValueError\<close>
  only. A bill without error has a finite total exactly when its rate is finite (lemma
  \<open>calc_month_bill_finite\<close>), so the two rows are written, or none.
\<close>

definition generate_electricity_invoice :: "nat \<Rightarrow> int \<Rightarrow> int \<Rightarrow> db \<Rightarrow> response \<times> db" where
  "generate_electricity_invoice rid y m s =
     (case get_room s rid of
        None \<Rightarrow> (Http404, s)
      | Some rm \<Rightarrow>
          (case date y m 1 of
             Inl (ValueError msg) \<Rightarrow> (JsonError msg, s)
           | Inl e \<Rightarrow> (Raised e, s)
           | Inr first_of_month \<Rightarrow>
               (case first (order_by_desc invoice_month
                      (filter (\<lambda>i. invoice_room i = room_pk rm \<and> invoice_month i = first_of_month
                                 \<and> invoice_type i = Electricity) (invoices s))) of
                  Some existing_invoice \<Rightarrow>
                    (JsonResponse ''Invoice already exists'' (invoice_pk existing_invoice), s)
                | None \<Rightarrow>
                    (case calc_month_bill rid y m s of
                       Inl (ValueError msg) \<Rightarrow> (JsonError msg, s)
                     | Inl e \<Rightarrow> (Raised e, s)
                     | Inr bill_data \<Rightarrow>
                         (case bill_error bill_data of
                            Some msg \<Rightarrow> (JsonError msg, s)
                          | None \<Rightarrow>
                              (case DecimalField_to_python (total bill_data) of
                                 Inl e \<Rightarrow> (Raised e, s)
                               | Inr t \<Rightarrow>
                                   (case DecimalField_to_python (rate bill_data) of
                                      Inl e \<Rightarrow> (Raised e, s)
                                    | Inr r \<Rightarrow>
                                        (case Invoice_create (room_pk rm) first_of_month
                                                Electricity t 0 t s of
                                           (Inl e, s1) \<Rightarrow> (Raised e, s1)
                                         | (Inr invc, s1) \<Rightarrow>
                                             (JsonResponse ''Invoice created successfully''
                                                (invoice_pk invc),
                                              InvoiceItem_create (invoice_pk invc)
                                                (ElectricityBill (y, m)
                                                   (previous_reading bill_data)
                                                   (current_reading bill_data)
                                                   (units bill_data) r)
                                                (units bill_data) r t s1)))))))))"

text \<open>
  \<^verbatim>\<open>electricity_invoice_create(request)\<close> of the REST API: the same steps on the posted
  \<^verbatim>\<open>room_id\<close> (a missing or zero id is refused) without looking the room up first, the two
  rows written in one transaction.
\<close>

definition electricity_invoice_create :: "nat \<Rightarrow> int \<Rightarrow> int \<Rightarrow> db \<Rightarrow> response \<times> db" where
  "electricity_invoice_create rid y m s =
     (if rid = 0 then (JsonError ''room_id and month are required'', s)
      else
        (case date y m 1 of
           Inl (ValueError msg) \<Rightarrow> (JsonError msg, s)
         | Inl e \<Rightarrow> (Raised e, s)
         | Inr first_of_month \<Rightarrow>
             (case first (order_by_desc invoice_month
                    (filter (\<lambda>i. invoice_room i = rid \<and> invoice_month i = first_of_month
                               \<and> invoice_type i = Electricity) (invoices s))) of
                Some existing_invoice \<Rightarrow>
                  (ApiResponse 200 ''Invoice already exists'' existing_invoice, s)
              | None \<Rightarrow>
                  (case calc_month_bill rid y m s of
                     Inl (ValueError msg) \<Rightarrow> (JsonError msg, s)
                   | Inl e \<Rightarrow> (Raised e, s)
                   | Inr bill_data \<Rightarrow>
                       (case bill_error bill_data of
                          Some msg \<Rightarrow> (JsonError msg, s)
                        | None \<Rightarrow>
                            (case atomic (\<lambda>s0.
                                    case DecimalField_to_python (total bill_data) of
                                      Inl e \<Rightarrow> (Inl e, s0)
                                    | Inr t \<Rightarrow>
                                        (case DecimalField_to_python (rate bill_data) of
                                           Inl e \<Rightarrow> (Inl e, s0)
                                         | Inr r \<Rightarrow>
                                             (case Invoice_create rid first_of_month
                                                     Electricity t 0 t s0 of
                                                (Inl e, s1) \<Rightarrow> (Inl e, s1)
                                              | (Inr invc, s1) \<Rightarrow>
                                                  (Inr invc,
                                                   InvoiceItem_create (invoice_pk invc)
                                                     (ElectricityBill (y, m)
                                                        (previous_reading bill_data)
                                                        (current_reading bill_data)
                                                        (units bill_data) r)
                                                     (units bill_data) r t s1)))) s of
                               (Inl e, s2) \<Rightarrow> (Raised e, s2)
                             | (Inr invc, s2) \<Rightarrow>
                                 (ApiResponse 201 ''Invoice created successfully'' invc, s2)))))))"

text \<open>
  \<^verbatim>\<open>update_lease_tenant(request, lease_id)\<close>: the inline edit that reassigns the tenant of
  a lease and saves it; \<open>tenant_id\<close> is the posted form field, if any.
\<close>

definition update_lease_tenant :: "nat \<Rightarrow> nat option \<Rightarrow> db \<Rightarrow> response \<times> db" where
  "update_lease_tenant lease_id tenant_id s =
     (case find (\<lambda>l. lease_pk l = Some lease_id) (leases s) of
        None \<Rightarrow> (Http404, s)
      | Some l \<Rightarrow>
          (case tenant_id of
             None \<Rightarrow> (Redirect [], s)
           | Some tid \<Rightarrow>
               (case get_tenant s tid of
                  None \<Rightarrow> (Redirect ''Tenant not found.'', s)
                | Some t \<Rightarrow>
                    (case Lease_save (l\<lparr>lease_tenant := tenant_pk t\<rparr>) s of
                       (Inl e, s1) \<Rightarrow> (Raised e, s1)
                     | (Inr l', s1) \<Rightarrow>
                         (Redirect (''Tenant updated to '' @ full_name t @ ''.''), s1)))))"

text \<open>\<^verbatim>\<open>update_room_status(request, room_id, new_status)\<close> writes the status it is given.\<close>

definition update_room_status :: "nat \<Rightarrow> room_status \<Rightarrow> db \<Rightarrow> db" where
  "update_room_status rid new_status s =
     (case get_room s rid of None \<Rightarrow> s | Some rm \<Rightarrow> Room_set_status rid new_status s)"

text \<open>
  \<^verbatim>\<open>lease_detail(request, pk)\<close> with method DELETE: \<^verbatim>\<open>lease.delete()\<close> removes the row and, by
  cascade, the payments of the lease.
\<close>

definition Lease_delete :: "nat \<Rightarrow> db \<Rightarrow> db" where
  "Lease_delete k s =
     s\<lparr>leases := filter (\<lambda>l. lease_pk l \<noteq> Some k) (leases s),
       rent_payments := filter (\<lambda>p. payment_lease p \<noteq> k) (rent_payments s)\<rparr>"

subsection \<open>The finance snapshot of a room\<close>

datatype badge = VacantBadge | MaintenanceBadge | OK | DueSoon | Overdue

record snapshot =
  active_lease :: "lease option"
  last_invoice :: "invoice option"
  last_invoice_paid :: "bool option"
  last_invoice_due_date :: "date option"
  badge :: badge

text \<open>
  \<^verbatim>\<open>get_room_finance_snapshot(room)\<close>. The room object may carry two prefetched lists
  (\<^verbatim>\<open>active_leases_list\<close>, \<^verbatim>\<open>current_invoices_list\<close>); without them the function queries
  the database. \<open>today\<close> is \<^verbatim>\<open>timezone.now().date()\<close>. The snapshot keeps the fields the
  badge depends on.
\<close>

definition get_room_finance_snapshot ::
  "room \<Rightarrow> lease list option \<Rightarrow> invoice list option \<Rightarrow> date \<Rightarrow> db \<Rightarrow> error + snapshot" where
  "get_room_finance_snapshot rm active_leases_list current_invoices_list today s =
     (let active =
            (case active_leases_list of
               Some ls \<Rightarrow> first ls
             | None \<Rightarrow>
                 first (order_by_desc start_date
                   (filter (\<lambda>l. lease_room l = room_pk rm \<and> lease_status l = Active) (leases s))))
      in
      case active of
        None \<Rightarrow>
          Inr \<lparr>active_lease = None, last_invoice = None, last_invoice_paid = None,
               last_invoice_due_date = None,
               badge = (if room_status rm = Maintenance then MaintenanceBadge else VacantBadge)\<rparr>
      | Some al \<Rightarrow>
          (let recent_invoices =
                 (case current_invoices_list of
                    Some cur \<Rightarrow> cur
                  | None \<Rightarrow>
                      take 6 (order_by_desc invoice_month
                        (filter (\<lambda>i. invoice_room i = room_pk rm) (invoices s))))
           in
           case first recent_invoices of
             None \<Rightarrow>
               Inr \<lparr>active_lease = Some al, last_invoice = None, last_invoice_paid = None,
                    last_invoice_due_date = None, badge = OK\<rparr>
           | Some last_inv \<Rightarrow>
               (let payment_exists =
                      (filter (\<lambda>p. Some (payment_lease p) = lease_pk al
                                 \<and> year_of (paid_on p) = year_of (invoice_month last_inv)
                                 \<and> month_of (paid_on p) = month_of (invoice_month last_inv))
                         (rent_payments s) \<noteq> [])
                in
                case add_days (invoice_month last_inv) 5 of
                  Inl e \<Rightarrow> Inl e
                | Inr due_date \<Rightarrow>
                    (case (if payment_exists then Inr OK
                           else if due_date < today then Inr Overdue
                           else (case sub_days due_date 3 of
                                   Inl e \<Rightarrow> Inl e
                                 | Inr soon \<Rightarrow> if soon < today then Inr DueSoon else Inr OK)) of
                       Inl e \<Rightarrow> Inl e
                     | Inr b \<Rightarrow>
                         Inr \<lparr>active_lease = Some al, last_invoice = Some last_inv,
                              last_invoice_paid = Some payment_exists,
                              last_invoice_due_date = Some due_date, badge = b\<rparr>))))"

text \<open>
  The two views that show the rooms of a building with their snapshots. The model has one
  building, whose rooms are the rows of the room table; the result is what the snapshot
  function gives for each room. \<^verbatim>\<open>building_details\<close> hands each room over with two prefetched
  lists: its active leases, and its invoices of the current month
  (\<^verbatim>\<open>Invoice.objects.filter(month=current_month)\<close>, where \<^verbatim>\<open>current_month\<close> is the first day of
  the month of \<open>today\<close>). \<^verbatim>\<open>building_floor_partial\<close> hands the rooms over as they are.
\<close>

definition building_details :: "date \<Rightarrow> db \<Rightarrow> (error + snapshot) list" where
  "building_details today s =
     (let current_month = (year_of today, month_of today, 1)
      in map (\<lambda>rm.
                get_room_finance_snapshot rm
                  (Some (order_by_desc start_date
                     (filter (\<lambda>l. lease_room l = room_pk rm \<and> lease_status l = Active)
                        (leases s))))
                  (Some (order_by_desc invoice_month
                     (filter (\<lambda>i. invoice_room i = room_pk rm \<and> invoice_month i = current_month)
                        (invoices s))))
                  today s)
           (rooms s))"

definition building_floor_partial :: "date \<Rightarrow> db \<Rightarrow> (error + snapshot) list" where
  "building_floor_partial today s =
     map (\<lambda>rm. get_room_finance_snapshot rm None None today s) (rooms s)"

section \<open>Reachable states\<close>

definition empty_db :: db where
  "empty_db =
     \<lparr>rooms = [], tenants = [], leases = [], rent_payments = [], meter_readings = [],
      invoices = [], invoice_items = [], settings = [], lease_seq = 1, invoice_seq = 1,
      item_seq = 1\<rparr>"

text \<open>
  The states the application reaches from an empty database: rows of the plain tables are
  added by the CRUD screens; leases are written only through \<open>Lease_save\<close> and the
  operations built on it, and removed by \<open>Lease_delete\<close>.
\<close>

inductive reachable :: "db \<Rightarrow> bool" where
  start: "reachable empty_db"
| add_room: "reachable s \<Longrightarrow> reachable (s\<lparr>rooms := rooms s @ [r]\<rparr>)"
| add_tenant: "reachable s \<Longrightarrow> reachable (s\<lparr>tenants := tenants s @ [t]\<rparr>)"
| add_reading: "reachable s \<Longrightarrow> reachable (s\<lparr>meter_readings := meter_readings s @ [x]\<rparr>)"
| add_payment: "reachable s \<Longrightarrow> reachable (s\<lparr>rent_payments := rent_payments s @ [p]\<rparr>)"
| set_settings: "reachable s \<Longrightarrow> reachable (s\<lparr>settings := kv\<rparr>)"
| save_lease: "reachable s \<Longrightarrow> reachable (snd (Lease_save l s))"
| lease_created: "reachable s \<Longrightarrow> reachable (snd (create_lease tnt rm start rent dep bday s))"
| lease_ended: "reachable s \<Longrightarrow> reachable (snd (end_lease l e s))"
| tenant_changed: "reachable s \<Longrightarrow> reachable (snd (update_lease_tenant lid tid s))"
| lease_deleted: "reachable s \<Longrightarrow> reachable (Lease_delete k s)"
| room_status_set: "reachable s \<Longrightarrow> reachable (update_room_status rid st s)"
| electricity_invoiced: "reachable s \<Longrightarrow> reachable (snd (generate_electricity_invoice rid y m s))"
| electricity_invoiced_api: "reachable s \<Longrightarrow> reachable (snd (electricity_invoice_create rid y m s))"
| monthly_invoiced:
    "reachable s \<Longrightarrow> reachable (snd (create_monthly_invoice rm mth rent eu er s))"

text \<open>The leases of a room that are active, and the invariant of the occupancy engine.\<close>

definition active_leases :: "db \<Rightarrow> nat \<Rightarrow> lease list" where
  "active_leases s rid =
     filter (\<lambda>l. lease_room l = rid \<and> lease_status l = Active) (leases s)"

definition one_active_lease_per_room :: "db \<Rightarrow> bool" where
  "one_active_lease_per_room s \<longleftrightarrow> (\<forall>rid. length (active_leases s rid) \<le> 1)"

section \<open>Predicates of the statements\<close>

text \<open>
  The electricity invoices of a room and month (the query both invoice endpoints make),
  the \<^verbatim>\<open>unique_together = ['room', 'month', 'type']\<close> constraint of the invoice table, and
  the query of the snapshot for a payment of the lease in the month of an invoice.
\<close>

definition electricity_invoices :: "db \<Rightarrow> nat \<Rightarrow> int \<Rightarrow> int \<Rightarrow> invoice list" where
  "electricity_invoices s rid y m =
     filter (\<lambda>i. invoice_room i = rid \<and> invoice_month i = (y, m, 1) \<and> invoice_type i = Electricity)
       (invoices s)"

definition invoice_unique_together :: "invoice list \<Rightarrow> bool" where
  "invoice_unique_together is \<longleftrightarrow>
     distinct (map (\<lambda>i. (invoice_room i, invoice_month i, invoice_type i)) is)"

definition payment_in_month :: "db \<Rightarrow> lease \<Rightarrow> date \<Rightarrow> bool" where
  "payment_in_month s l mth \<longleftrightarrow>
     (\<exists>p\<in>set (rent_payments s).
        Some (payment_lease p) = lease_pk l \<and> year_of (paid_on p) = year_of mth
        \<and> month_of (paid_on p) = month_of mth)"

text \<open>
  The primary key of the lease table, and the two constraints of the table together.
\<close>

definition lease_pks_distinct :: "lease list \<Rightarrow> bool" where
  "lease_pks_distinct ls \<longleftrightarrow> distinct (map lease_pk ls)"

definition lease_table_ok :: "lease list \<Rightarrow> bool" where
  "lease_table_ok ls \<longleftrightarrow> unique_active_lease_per_room ls \<and> lease_pks_distinct ls"

section \<open>Scenarios\<close>

text \<open>The databases of the scenarios the theorems below are evaluated on.\<close>

definition scenario_A :: db where
  "scenario_A =
     empty_db\<lparr>rooms := [\<lparr>room_pk = 1, room_number = ''101'', room_status = Vacant\<rparr>],
              meter_readings :=
                [\<lparr>reading_room = 1, reading_date = (2024, 1, 15), reading_value = 100\<rparr>,
                 \<lparr>reading_room = 1, reading_date = (2024, 2, 15), reading_value = 150\<rparr>],
              settings := [(''electricity_rate_per_unit'', Literal (Finite (21 / 2)))]\<rparr>"

definition scenario_B :: db where
  "scenario_B =
     empty_db\<lparr>rooms := [\<lparr>room_pk = 1, room_number = ''101'', room_status = Vacant\<rparr>],
              meter_readings :=
                [\<lparr>reading_room = 1, reading_date = (2024, 2, 10), reading_value = 80\<rparr>],
              settings := [(''electricity_rate_per_unit'', Literal (Finite (21 / 2)))]\<rparr>"

definition scenario_backwards :: db where
  "scenario_backwards =
     empty_db\<lparr>rooms := [\<lparr>room_pk = 1, room_number = ''101'', room_status = Vacant\<rparr>],
              meter_readings :=
                [\<lparr>reading_room = 1, reading_date = (2024, 1, 15), reading_value = 150\<rparr>,
                 \<lparr>reading_room = 1, reading_date = (2024, 2, 15), reading_value = 100\<rparr>],
              settings := [(''electricity_rate_per_unit'', Literal (Finite (21 / 2)))]\<rparr>"

text \<open>
  The readings of \<open>scenario_backwards\<close> with a rate setting that is no decimal literal
  (\<^verbatim>\<open>'abc'\<close>), and the reading of \<open>scenario_B\<close> with the rate setting \<^verbatim>\<open>'NaN'\<close>.
\<close>

definition scenario_malformed_rate :: db where
  "scenario_malformed_rate =
     scenario_backwards\<lparr>settings := [(''electricity_rate_per_unit'', Malformed)]\<rparr>"

definition scenario_nan_rate :: db where
  "scenario_nan_rate =
     scenario_B\<lparr>settings := [(''electricity_rate_per_unit'', Literal NaN)]\<rparr>"

definition asha :: tenant where
  "asha = \<lparr>tenant_pk = 7, full_name = ''Asha''\<rparr>"

definition ben :: tenant where
  "ben = \<lparr>tenant_pk = 8, full_name = ''Ben''\<rparr>"

definition room_101 :: room where
  "room_101 = \<lparr>room_pk = 1, room_number = ''101'', room_status = Vacant\<rparr>"

definition scenario_vacant :: db where
  "scenario_vacant = empty_db\<lparr>rooms := [room_101], tenants := [asha, ben]\<rparr>"

definition asha_lease :: lease where
  "asha_lease =
     \<lparr>lease_pk = Some 1, lease_tenant = 7, lease_room = 1, start_date = (2024, 1, 10),
      end_date = None, monthly_rent = 5000, deposit = 0, billing_day = 1,
      lease_status = Active\<rparr>"

definition scenario_C :: db where
  "scenario_C =
     \<lparr>rooms = [\<lparr>room_pk = 1, room_number = ''101'', room_status = Occupied\<rparr>],
      tenants = [asha, ben],
      leases = [asha_lease],
      rent_payments = [], meter_readings = [],
      invoices = [\<lparr>invoice_pk = 1, invoice_room = 1, invoice_month = (2024, 1, 1),
                   invoice_type = Rent, subtotal = 5000, tax = 0, invoice_total = 5000\<rparr>],
      invoice_items = [\<lparr>item_pk = 1, item_invoice = 1, item_label = RentFor (2024, 1, 1),
                        qty = 1, item_rate = 5000, item_amount = 5000\<rparr>],
      settings = [], lease_seq = 2, invoice_seq = 2, item_seq = 2\<rparr>"

definition chandra :: tenant where
  "chandra = \<lparr>tenant_pk = 9, full_name = ''Chandra''\<rparr>"

definition old_lease :: lease where
  "old_lease =
     \<lparr>lease_pk = Some 1, lease_tenant = 7, lease_room = 1, start_date = (2023, 1, 1),
      end_date = Some (2023, 12, 31), monthly_rent = 4500, deposit = 0, billing_day = 1,
      lease_status = Ended\<rparr>"

definition ben_lease :: lease where
  "ben_lease =
     \<lparr>lease_pk = Some 2, lease_tenant = 8, lease_room = 1, start_date = (2024, 1, 10),
      end_date = None, monthly_rent = 5000, deposit = 0, billing_day = 1,
      lease_status = Active\<rparr>"

definition scenario_reassign :: db where
  "scenario_reassign =
     empty_db\<lparr>rooms := [\<lparr>room_pk = 1, room_number = ''101'', room_status = Occupied\<rparr>],
              tenants := [asha, ben, chandra],
              leases := [old_lease, ben_lease],
              lease_seq := 3\<rparr>"

definition january_rent :: invoice where
  "january_rent =
     \<lparr>invoice_pk = 1, invoice_room = 1, invoice_month = (2024, 1, 1), invoice_type = Rent,
      subtotal = 5000, tax = 0, invoice_total = 5000\<rparr>"

definition february_electricity :: invoice where
  "february_electricity =
     \<lparr>invoice_pk = 2, invoice_room = 1, invoice_month = (2024, 2, 1),
      invoice_type = Electricity, subtotal = 525, tax = 0, invoice_total = 525\<rparr>"

definition scenario_D :: db where
  "scenario_D =
     scenario_C\<lparr>invoices := [january_rent, february_electricity],
       rent_payments :=
         [\<lparr>payment_lease = 1, paid_on = (2024, 1, 20), amount = 5000, pay_method = ''Cash''\<rparr>]\<rparr>"

definition scenario_D_paid :: db where
  "scenario_D_paid =
     scenario_D\<lparr>rent_payments := rent_payments scenario_D @
       [\<lparr>payment_lease = 1, paid_on = (2024, 2, 3), amount = 525, pay_method = ''Cash''\<rparr>]\<rparr>"

section \<open>Properties of the metering calculator\<close>

subsection \<open>The decimal context\<close>

text \<open>
  \<open>ndigits\<close> counts digits and \<open>adjusted\<close> is the exponent of the leading digit; a number
  the context represents exactly comes back unchanged from an operation; and every number
  with a coefficient of at most 28 digits and an exponent in the range of the context is
  represented exactly.
\<close>

lemma ndigits_bounds:
  assumes "0 < n"
  shows "10 ^ nat (ndigits n - 1) \<le> n" and "n < 10 ^ nat (ndigits n)" and "1 \<le> ndigits n"
proof -
  have "0 < n \<longrightarrow> 10 ^ nat (ndigits n - 1) \<le> n \<and> n < 10 ^ nat (ndigits n) \<and> 1 \<le> ndigits n"
  proof (induction n rule: ndigits.induct)
    case (1 n)
    show ?case
    proof (cases "n < 10")
      case True
      then show ?thesis by (simp add: ndigits.simps[of n])
    next
      case False
      then have pos: "0 < n div 10" by simp
      from 1[OF False] pos have ih: "10 ^ nat (ndigits (n div 10) - 1) \<le> n div 10"
        "n div 10 < 10 ^ nat (ndigits (n div 10))" "1 \<le> ndigits (n div 10)" by simp_all
      have nd: "ndigits n = 1 + ndigits (n div 10)" using False by (simp add: ndigits.simps[of n])
      define j where "j = nat (ndigits (n div 10) - 1)"
      have j: "ndigits (n div 10) = 1 + int j" using ih(3) by (simp add: j_def)
      have "10 * 10 ^ j \<le> 10 * (n div 10)" using ih(1) unfolding j by simp
      also have "\<dots> \<le> n" by simp
      finally have lo: "10 ^ nat (ndigits n - 1) \<le> n" unfolding nd j by (simp add: nat_add_distrib)
      have "n < 10 * (n div 10 + 1)" by simp
      also have "\<dots> \<le> 10 * 10 ^ nat (ndigits (n div 10))" using ih(2) by simp
      finally have hi: "n < 10 ^ nat (ndigits n)" unfolding nd j by (simp add: nat_add_distrib)
      from lo hi ih(3) show ?thesis unfolding nd by simp
    qed
  qed
  with assms show "10 ^ nat (ndigits n - 1) \<le> n" and "n < 10 ^ nat (ndigits n)" and "1 \<le> ndigits n"
    by simp_all
qed

lemma adjusted_bounds:
  assumes "x \<noteq> 0"
  shows "10 powi adjusted x \<le> \<bar>x\<bar>" and "\<bar>x\<bar> < 10 powi (adjusted x + 1)"
proof -
  have "10 powi adjusted x \<le> \<bar>x\<bar> \<and> \<bar>x\<bar> < 10 powi (adjusted x + 1)"
  proof (cases "1 \<le> \<bar>x\<bar>")
    case True
    define n where "n = \<lfloor>\<bar>x\<bar>\<rfloor>"
    have n: "0 < n" using True unfolding n_def by linarith
    note b = ndigits_bounds[OF n]
    define j where "j = nat (ndigits n - 1)"
    have d: "ndigits n = 1 + int j" using b(3) by (simp add: j_def)
    have a: "adjusted x = int j" using True by (simp add: adjusted_def n_def[symmetric] d)
    have lo: "of_int n \<le> \<bar>x\<bar>" and hi: "\<bar>x\<bar> < of_int (n + 1)" unfolding n_def by linarith+
    have "(10::int) ^ j \<le> n" using b(1) by (simp add: j_def)
    then have "(10::rat) ^ j \<le> of_int n" by (metis of_int_le_iff of_int_numeral of_int_power)
    with lo have 1: "(10::rat) ^ j \<le> \<bar>x\<bar>" by linarith
    have "n + 1 \<le> 10 ^ Suc j" using b(2) unfolding d by (simp add: nat_add_distrib)
    then have "(of_int (n + 1) :: rat) \<le> 10 ^ Suc j" by (metis of_int_le_iff of_int_numeral of_int_power)
    with hi have 2: "\<bar>x\<bar> < (10::rat) ^ Suc j" by linarith
    have e: "int j + 1 = int (Suc j)" by simp
    show ?thesis unfolding a e power_int_of_nat using 1 2 by simp
  next
    case False
    define y where "y = 1 / \<bar>x\<bar>"
    have xpos: "0 < \<bar>x\<bar>" using assms by simp
    have y1: "1 < y" using False xpos by (simp add: y_def)
    define c where "c = \<lceil>y\<rceil> - 1"
    have c: "0 < c" using y1 unfolding c_def by linarith
    note b = ndigits_bounds[OF c]
    define j where "j = nat (ndigits c - 1)"
    have d: "ndigits c = 1 + int j" using b(3) by (simp add: j_def)
    have a: "adjusted x = - int (Suc j)" using False by (simp add: adjusted_def y_def[symmetric] c_def[symmetric] d)
    have cy: "of_int c < y" and yc: "y \<le> of_int (c + 1)" unfolding c_def by linarith+
    have "(10::int) ^ j \<le> c" using b(1) by (simp add: j_def)
    then have "(10::rat) ^ j \<le> of_int c" by (metis of_int_le_iff of_int_numeral of_int_power)
    with cy have 1: "(10::rat) ^ j < y" by linarith
    have "c + 1 \<le> 10 ^ Suc j" using b(2) unfolding d by (simp add: nat_add_distrib)
    then have "(of_int (c + 1) :: rat) \<le> 10 ^ Suc j" by (metis of_int_le_iff of_int_numeral of_int_power)
    with yc have 2: "y \<le> (10::rat) ^ Suc j" by linarith
    have x: "\<bar>x\<bar> = 1 / y" using xpos by (simp add: y_def)
    have ypos: "0 < y" using y1 by simp
    have lo: "1 / (10::rat) ^ Suc j \<le> \<bar>x\<bar>" unfolding x using 2 ypos
      by (simp add: field_simps)
    have hi: "\<bar>x\<bar> < 1 / (10::rat) ^ j" unfolding x using 1 ypos
      by (simp add: field_simps)
    have e1: "(10::rat) powi (- int (Suc j)) = 1 / 10 ^ Suc j"
      by (simp only: power_int_minus power_int_of_nat inverse_eq_divide)
    have e2: "(10::rat) powi (- int (Suc j) + 1) = 1 / 10 ^ j"
    proof -
      have "- int (Suc j) + 1 = - int j" by simp
      then show ?thesis by (simp only: power_int_minus power_int_of_nat inverse_eq_divide)
    qed
    show ?thesis unfolding a e1 e2 using lo hi by simp
  qed
  then show "10 powi adjusted x \<le> \<bar>x\<bar>" and "\<bar>x\<bar> < 10 powi (adjusted x + 1)"
    by simp_all
qed

lemma adjusted_unique:
  assumes "10 powi a \<le> \<bar>x\<bar>" and "\<bar>x\<bar> < 10 powi (a + 1)"
  shows "adjusted x = a"
proof -
  have nz: "x \<noteq> 0"
  proof
    assume "x = 0"
    with assms(1) have "(10::rat) powi a \<le> 0" by simp
    moreover have "(0::rat) < 10 powi a" by simp
    ultimately show False by linarith
  qed
  note b = adjusted_bounds[OF nz]
  have "(10::rat) powi a < 10 powi (adjusted x + 1)" using assms(1) b(2) by linarith
  then have 1: "a < adjusted x + 1"
    by (metis less_irrefl linorder_not_less one_le_numeral order_le_less_trans power_int_increasing)
  have "(10::rat) powi adjusted x < 10 powi (a + 1)" using assms(2) b(1) by linarith
  then have 2: "adjusted x < a + 1"
    by (metis less_irrefl linorder_not_less one_le_numeral order_le_less_trans power_int_increasing)
  from 1 2 show ?thesis by linarith
qed

lemma round_half_even_of_int [simp]: "round_half_even (of_int k) = k"
  by (simp add: round_half_even_def)

lemma context_round_exact: "context_exact x \<Longrightarrow> context_round x = Inr x"
proof (cases "x = 0")
  case True
  then show ?thesis by (simp add: context_round_def)
next
  case False
  assume ce: "context_exact x"
  define e where "e = adjusted x - (prec - 1)"
  define y where "y = x / 10 powi e"
  from ce False have r: "Emin \<le> adjusted x" "adjusted x \<le> Emax" and i: "of_int \<lfloor>y\<rfloor> = y"
    by (simp_all add: context_exact_def Let_def y_def e_def)
  have m: "max (adjusted x - (prec - 1)) Etiny = e"
    using r(1) by (simp add: Etiny_def e_def)
  have "round_half_even y = \<lfloor>y\<rfloor>"
    by (metis i round_half_even_of_int)
  then have "of_int (round_half_even y) * 10 powi e = y * 10 powi e"
    by (simp only: i)
  also have "\<dots> = x" by (simp add: y_def)
  finally have "of_int (round_half_even (x / 10 powi e)) * 10 powi e = x" unfolding y_def .
  then show ?thesis using False r(2) by (simp add: context_round_def m Let_def)
qed

lemma context_exact_coefficient:
  assumes "x = of_int k * 10 powi f" and "k \<noteq> 0" and "\<bar>k\<bar> < 10 ^ 28"
    and "Emin \<le> f" and "f \<le> Emax - 27"
  shows "context_exact x"
proof -
  have nz: "x \<noteq> 0" using assms(1,2) by simp
  note b = adjusted_bounds[OF nz]
  define c :: rat where "c = of_int \<bar>k\<bar>"
  define p :: rat where "p = 10 powi f"
  have ppos: "0 < p" by (simp add: p_def)
  have ax: "\<bar>x\<bar> = c * p" unfolding assms(1) c_def p_def by (simp add: abs_mult)
  have "1 \<le> \<bar>k\<bar>" using assms(2) by linarith
  then have c1: "1 \<le> c" unfolding c_def by (metis of_int_1_le_iff)
  have "1 * p \<le> c * p" using c1 ppos by (intro mult_right_mono) simp_all
  with ax b(2) have "p < 10 powi (adjusted x + 1)" by linarith
  then have "(10::rat) powi f < 10 powi (adjusted x + 1)" unfolding p_def .
  then have "f < adjusted x + 1"
    by (metis less_irrefl linorder_not_less one_le_numeral order_le_less_trans power_int_increasing)
  then have lo: "f \<le> adjusted x" by linarith
  have c2: "c < 10 ^ 28" using assms(3) unfolding c_def
    by (metis of_int_less_iff of_int_numeral of_int_power)
  have "c * p < 10 ^ 28 * p" using c2 ppos by (intro mult_strict_right_mono) simp_all
  also have "\<dots> = 10 powi (28 + f)" unfolding p_def by (simp add: power_int_add)
  finally have "(10::rat) powi adjusted x < 10 powi (28 + f)" using b(1) ax by linarith
  then have hi: "adjusted x < 28 + f"
    by (metis less_irrefl linorder_not_less one_le_numeral order_le_less_trans power_int_increasing)
  define e where "e = adjusted x - (prec - 1)"
  have ef: "e \<le> f" using hi by (simp add: e_def prec_def)
  define d where "d = nat (f - e)"
  have fd: "f = e + int d" using ef by (simp add: d_def)
  have "x / 10 powi e = of_int k * 10 ^ d"
    unfolding assms(1) fd by (simp add: power_int_add)
  also have "\<dots> = of_int (k * 10 ^ d)" by simp
  finally have "of_int \<lfloor>x / 10 powi e\<rfloor> = x / 10 powi e" by (simp only: floor_of_int)
  then show ?thesis using lo hi assms(4,5) unfolding context_exact_def Let_def e_def[symmetric]
    by simp
qed

lemma context_round_zero [simp]: "context_round 0 = Inr 0"
  by (simp add: context_round_def)

lemma context_exact_zero [simp]: "context_exact 0"
  by (simp add: context_exact_def)

lemma context_exact_cents:
  assumes "x = of_int k / 100" and "\<bar>k\<bar> < 10 ^ 28"
  shows "context_exact x"
proof (cases "k = 0")
  case True
  with assms(1) show ?thesis by simp
next
  case False
  have "x = of_int k * 10 powi (- 2)" unfolding assms(1) by simp
  from context_exact_coefficient[OF this False assms(2)] show ?thesis
    by (simp add: Emin_def Emax_def)
qed

subsection \<open>Rounding half up\<close>

lemma round_half_up_multiple: "\<exists>k::int. round_half_up x = of_int k / 100"
  unfolding round_half_up_def
  by (cases "0 \<le> x") (auto intro: exI[of _ "- \<lfloor>- x * 100 + 1 / 2\<rfloor>"])

lemma round_half_up_nonneg:
  assumes "0 \<le> x"
  shows "\<bar>round_half_up x - x\<bar> \<le> 1 / 200"
    and "\<bar>round_half_up x - x\<bar> = 1 / 200 \<Longrightarrow> x < round_half_up x"
proof -
  define k where "k = \<lfloor>x * 100 + 1 / 2\<rfloor>"
  have q: "round_half_up x = of_int k / 100"
    using assms by (simp add: round_half_up_def k_def)
  have lo: "of_int k \<le> x * 100 + 1 / 2" unfolding k_def by (rule of_int_floor_le)
  have hi: "x * 100 + 1 / 2 < of_int k + 1" unfolding k_def by linarith
  show "\<bar>round_half_up x - x\<bar> \<le> 1 / 200" using lo hi unfolding q by linarith
  show "\<bar>round_half_up x - x\<bar> = 1 / 200 \<Longrightarrow> x < round_half_up x"
    using lo hi unfolding q by linarith
qed

lemma round_half_up_neg: "\<not> 0 \<le> x \<Longrightarrow> round_half_up x = - round_half_up (- x)"
  by (simp add: round_half_up_def)

lemma round_half_up_near: "\<bar>round_half_up x - x\<bar> \<le> 1 / 200"
proof (cases "0 \<le> x")
  case True
  then show ?thesis by (rule round_half_up_nonneg(1))
next
  case False
  then have "0 \<le> - x" by simp
  from round_half_up_nonneg(1)[OF this] show ?thesis
    unfolding round_half_up_neg[OF False] by linarith
qed

lemma round_half_up_tie:
  assumes "\<bar>round_half_up x - x\<bar> = 1 / 200"
  shows "\<bar>x\<bar> < \<bar>round_half_up x\<bar>"
proof (cases "0 \<le> x")
  case True
  from round_half_up_nonneg(2)[OF True assms] True show ?thesis by linarith
next
  case False
  then have nn: "0 \<le> - x" by simp
  have "\<bar>round_half_up (- x) - (- x)\<bar> = 1 / 200"
    using assms unfolding round_half_up_neg[OF False] by linarith
  from round_half_up_nonneg(2)[OF nn this] False show ?thesis
    unfolding round_half_up_neg[OF False] by linarith
qed

lemma round_half_up_zero [simp]: "round_half_up 0 = 0"
  by code_simp

lemma quantize_half_up_zero [simp]: "quantize_half_up 0 = Inr 0"
  by (simp add: quantize_half_up_def)

subsection \<open>Units and bills\<close>

lemma compute_units_exact:
  assumes "context_exact (c - p)"
  shows "compute_units (Some p) (Some c) =
           (if c < p then Inl (ValueError negative_delta_msg) else Inr (c - p))"
  using context_round_exact[OF assms] by (simp add: compute_units_def)

lemma compute_bill_exact:
  assumes "p \<le> c" and "context_exact (c - p)" and "context_exact ((c - p) * r)"
    and "\<bar>round_half_up ((c - p) * r)\<bar> < 10 ^ 26"
  shows "compute_bill (Some p) (Some c) (Finite r) =
           Inr \<lparr>units = c - p, rate = Finite r, total = Finite (round_half_up ((c - p) * r))\<rparr>"
  using assms(1,4) compute_units_exact[OF assms(2)] context_round_exact[OF assms(3)]
  by (simp add: compute_bill_def quantize_half_up_def)

lemma compute_bill_finite:
  assumes "compute_bill prev cur rt = Inr b"
  shows "(\<exists>t. total b = Finite t) \<longleftrightarrow> (\<exists>r. rate b = Finite r)"
  using assms by (auto simp: compute_bill_def split: sum.splits Decimal.splits)

subsection \<open>Queries and monthly bills\<close>

lemma scenario_A_bill:
  "calc_month_bill 1 2024 2 scenario_A =
     Inr \<lparr>units = 50, rate = Finite (21 / 2), total = Finite 525, bill_room_id = 1,
          bill_month = (2024, 2), previous_reading = Some 100, current_reading = Some 150,
          bill_error = None\<rparr>"
  by code_simp

lemma get_room_pk: "get_room s rid = Some rm \<Longrightarrow> room_pk rm = rid"
  unfolding get_room_def by (auto dest: find_Some_iff[THEN iffD1])

lemma order_by_desc_Nil [simp]: "order_by_desc k [] = []"
  by (simp add: order_by_desc_def)

lemma insert_desc_not_Nil [simp]: "insert_desc k x ys \<noteq> []"
  by (cases ys) simp_all

lemma set_insert_desc [simp]: "set (insert_desc k x ys) = insert x (set ys)"
  by (induction ys) auto

lemma order_by_desc_Cons: "order_by_desc k (x # xs) = insert_desc k x (order_by_desc k xs)"
  by (simp add: order_by_desc_def)

lemma set_order_by_desc [simp]: "set (order_by_desc k xs) = set xs"
  by (induction xs) (simp_all add: order_by_desc_Cons)

lemma order_by_desc_eq_Nil [simp]: "order_by_desc k xs = [] \<longleftrightarrow> xs = []"
  by (cases xs) (simp_all add: order_by_desc_Cons)

lemma first_eq_None [simp]: "first xs = None \<longleftrightarrow> xs = []"
  by (simp add: first_def split: list.splits)

lemma first_Nil [simp]: "first [] = None"
  by (simp add: first_def)

lemma get_month_readings_date:
  "get_month_readings rid y m s = Inr pc \<Longrightarrow> date y m 1 = Inr (y, m, 1)"
  by (auto simp: get_month_readings_def date_def split: sum.splits if_splits)

lemma get_month_readings_no_prior:
  assumes "get_month_readings rid y m s = Inr (prev, cur)"
    and "\<forall>x\<in>set (meter_readings s). reading_room x = rid \<longrightarrow> \<not> reading_date x < (y, m, 1)"
  shows "prev = None"
proof -
  have "filter (\<lambda>x. reading_room x = rid \<and> reading_date x < (y, m, 1)) (meter_readings s) = []"
    using assms(2) by (auto simp: filter_empty_conv)
  with assms(1) show ?thesis
    by (auto simp: get_month_readings_def date_def Let_def split: sum.splits if_splits)
qed

lemma calc_month_bill_finite:
  assumes "calc_month_bill rid y m s = Inr b" and "bill_error b = None"
  shows "(\<exists>t. total b = Finite t) \<longleftrightarrow> (\<exists>r. rate b = Finite r)"
proof -
  from assms obtain prev cur rt b0 where c: "compute_bill prev cur rt = Inr b0"
    and b: "total b = total b0" "rate b = rate b0"
    by (auto simp: calc_month_bill_def split: option.splits sum.splits error.splits prod.splits)
  from compute_bill_finite[OF c] b show ?thesis by simp
qed

lemma calc_month_bill_no_previous:
  assumes "get_room s rid = Some rm" and "get_month_readings rid y m s = Inr (None, cur)"
    and "get_rate s = Inr (Finite r)"
  shows "calc_month_bill rid y m s =
           Inr \<lparr>units = 0, rate = Finite r, total = Finite 0, bill_room_id = rid,
                bill_month = (y, m), previous_reading = None, current_reading = cur,
                bill_error = None\<rparr>"
  using assms by (simp add: calc_month_bill_def compute_bill_def compute_units_def)

lemma calc_month_bill_backwards:
  assumes "get_room s rid = Some rm" and "get_month_readings rid y m s = Inr (Some p, Some c)"
    and "c < p" and "context_exact (c - p)" and "get_rate s = Inr rt"
  shows "calc_month_bill rid y m s =
           Inr \<lparr>units = 0, rate = rt, total = Finite 0, bill_room_id = rid, bill_month = (y, m),
                previous_reading = Some p, current_reading = Some c,
                bill_error = Some negative_delta_msg\<rparr>"
  using assms(1,2,3,5) compute_units_exact[OF assms(4)]
  by (simp add: calc_month_bill_def compute_bill_def)

lemma generate_backwards:
  assumes "get_room s rid = Some rm" and "get_month_readings rid y m s = Inr (Some p, Some c)"
    and "c < p" and "context_exact (c - p)" and "get_rate s = Inr rt"
    and "filter (\<lambda>i. invoice_room i = rid \<and> invoice_month i = (y, m, 1)
                      \<and> invoice_type i = Electricity) (invoices s) = []"
  shows "generate_electricity_invoice rid y m s = (JsonError negative_delta_msg, s)"
  using assms(1,6) get_room_pk[OF assms(1)] get_month_readings_date[OF assms(2)]
    calc_month_bill_backwards[OF assms(1-5)]
  by (simp add: generate_electricity_invoice_def)

lemma generate_existing_unchanged:
  "snd (generate_electricity_invoice rid y m s) = s
   \<or> (\<exists>r. get_room s rid = Some r \<and> date y m 1 = Inr (y, m, 1) \<and>
        filter (\<lambda>i. invoice_room i = rid \<and> invoice_month i = (y, m, 1)
                      \<and> invoice_type i = Electricity) (invoices s) = [] \<and>
        (\<exists>b. calc_month_bill rid y m s = Inr b \<and> bill_error b = None))"
proof (cases "get_room s rid")
  case None
  then show ?thesis by (simp add: generate_electricity_invoice_def)
next
  case (Some r)
  from get_room_pk[OF Some] have pk: "room_pk r = rid" .
  show ?thesis using Some pk
    by (auto simp: generate_electricity_invoice_def date_def
        split: option.splits sum.splits error.splits prod.splits)
qed

text \<open>
  With a rate setting that \<^verbatim>\<open>Decimal\<close> reads (or none) and readings whose difference the
  context represents exactly, as every pair of stored readings has: when the current reading
  is below the previous one, \<open>calc_month_bill\<close> returns both readings, 0 units, a total of 0
  and the error message; the view that creates the electricity invoice then writes nothing,
  and (no invoice of that room and month existing already) answers with the error.
\<close>

lemma calc_month_bill_negative_delta:
  assumes "get_room s rid = Some rm" and "get_month_readings rid y m s = Inr (Some p, Some c)"
    and "c < p" and "context_exact (c - p)" and "get_rate s = Inr rt"
  shows "calc_month_bill rid y m s =
           Inr \<lparr>units = 0, rate = rt, total = Finite 0, bill_room_id = rid, bill_month = (y, m),
                previous_reading = Some p, current_reading = Some c,
                bill_error = Some negative_delta_msg\<rparr>"
    and "snd (generate_electricity_invoice rid y m s) = s"
    and "filter (\<lambda>i. invoice_room i = rid \<and> invoice_month i = (y, m, 1)
                  \<and> invoice_type i = Electricity) (invoices s) = []
         \<Longrightarrow> fst (generate_electricity_invoice rid y m s) = JsonError negative_delta_msg"
proof -
  note b = calc_month_bill_backwards[OF assms]
  show "calc_month_bill rid y m s =
           Inr \<lparr>units = 0, rate = rt, total = Finite 0, bill_room_id = rid, bill_month = (y, m),
                previous_reading = Some p, current_reading = Some c,
                bill_error = Some negative_delta_msg\<rparr>" by (rule b)
  show "snd (generate_electricity_invoice rid y m s) = s"
    using generate_existing_unchanged[of rid y m s] b by auto
  show "fst (generate_electricity_invoice rid y m s) = JsonError negative_delta_msg"
    if "filter (\<lambda>i. invoice_room i = rid \<and> invoice_month i = (y, m, 1)
                  \<and> invoice_type i = Electricity) (invoices s) = []"
    using generate_backwards[OF assms that] by simp
qed

lemma stored_readings_exact:
  assumes "p = of_int i / 100" and "c = of_int j / 100" and "\<bar>i\<bar> < 10 ^ 12" and "\<bar>j\<bar> < 10 ^ 12"
  shows "context_exact (c - p)"
proof -
  have "c - p = of_int (j - i) / 100" unfolding assms(1,2) by (simp add: diff_divide_distrib)
  moreover have "\<bar>j - i\<bar> < 10 ^ 28" using assms(3,4) by simp
  ultimately show ?thesis by (rule context_exact_cents)
qed

lemma scenario_backwards_bill:
  "calc_month_bill 1 2024 2 scenario_backwards =
     Inr \<lparr>units = 0, rate = Finite (21 / 2), total = Finite 0, bill_room_id = 1,
          bill_month = (2024, 2), previous_reading = Some 150, current_reading = Some 100,
          bill_error = Some negative_delta_msg\<rparr>"
  "generate_electricity_invoice 1 2024 2 scenario_backwards
     = (JsonError negative_delta_msg, scenario_backwards)"
  by code_simp+

text \<open>
  Claim C2 at a concrete input: the readings of room 1 go backwards (150 in January, 100
  in February 2024) and the rate setting holds a text that is no decimal literal. Reading
  the rate raises \<^verbatim>\<open>InvalidOperation\<close>, which the handler of \<open>get_rate\<close> (written for a text that
  cannot be converted, and falling back to 0) does not catch; so \<open>calc_month_bill\<close> raises
  instead of returning the bill with the error message, and the view that creates the
  invoice ends with that exception instead of answering with the error. Nothing is written.
\<close>

theorem calc_month_bill_malformed_rate_raises:
  "get_month_readings 1 2024 2 scenario_malformed_rate = Inr (Some 150, Some 100)
   \<and> get_rate scenario_malformed_rate = Inl InvalidOperation
   \<and> calc_month_bill 1 2024 2 scenario_malformed_rate = Inl InvalidOperation
   \<and> generate_electricity_invoice 1 2024 2 scenario_malformed_rate
       = (Raised InvalidOperation, scenario_malformed_rate)"
  by code_simp

text \<open>
  Claim C7. Whenever the current reading is not below the previous one, the rate is a finite
  number, the difference of the readings and its product with the rate are represented
  exactly by the decimal context (at most 28 significant digits) and the rounded total is
  below \<open>10\<^sup>2\<^sup>6\<close>, \<open>compute_bill\<close> bills the difference and its total is the product of units
  and rate rounded to two decimals, half up: a multiple of 0.01, at most 0.005 away from the
  product, and on a tie the one of larger magnitude. In the scenario of the test suite
  (readings 100 and 150, rate 10.50) the bill of February 2024 has 50 units and the total
  525.00.
\<close>

theorem compute_bill_total_half_up:
  "(p \<le> c \<and> context_exact (c - p) \<and> context_exact ((c - p) * r)
      \<and> \<bar>round_half_up ((c - p) * r)\<bar> < 10 ^ 26 \<longrightarrow>
      compute_bill (Some p) (Some c) (Finite r) =
        Inr \<lparr>units = c - p, rate = Finite r, total = Finite (round_half_up ((c - p) * r))\<rparr>)
   \<and> (\<exists>k::int. round_half_up x = of_int k / 100)
   \<and> \<bar>round_half_up x - x\<bar> \<le> 1 / 200
   \<and> (\<bar>round_half_up x - x\<bar> = 1 / 200 \<longrightarrow> \<bar>x\<bar> < \<bar>round_half_up x\<bar>)
   \<and> calc_month_bill 1 2024 2 scenario_A =
        Inr \<lparr>units = 50, rate = Finite (21 / 2), total = Finite 525, bill_room_id = 1,
             bill_month = (2024, 2), previous_reading = Some 100, current_reading = Some 150,
             bill_error = None\<rparr>"
proof -
  have "p \<le> c \<and> context_exact (c - p) \<and> context_exact ((c - p) * r)
      \<and> \<bar>round_half_up ((c - p) * r)\<bar> < 10 ^ 26 \<longrightarrow>
      compute_bill (Some p) (Some c) (Finite r) =
        Inr \<lparr>units = c - p, rate = Finite r, total = Finite (round_half_up ((c - p) * r))\<rparr>"
    using compute_bill_exact[of p c r] by blast
  then show ?thesis
    using round_half_up_multiple[of x] round_half_up_near[of x] round_half_up_tie[of x]
      scenario_A_bill
    by blast
qed

theorem compute_bill_total_half_up_witness:
  "compute_bill (Some 100) (Some 150) (Finite (21 / 2)) =
     Inr \<lparr>units = 50, rate = Finite (21 / 2), total = Finite 525\<rparr>
   \<and> \<bar>round_half_up (1 / 8) - 1 / 8\<bar> = 1 / 200
   \<and> \<bar>1 / 8 :: rat\<bar> < \<bar>round_half_up (1 / 8)\<bar>"
proof -
  have q: "round_half_up 525 = 525" "round_half_up (1 / 8) = 13 / 100"
    by code_simp+
  have ce: "context_exact 50" "context_exact 525"
    by code_simp+
  have "(100::rat) \<le> 150" by simp
  with compute_bill_total_half_up[of 100 150 "21 / 2" "1 / 8"] show ?thesis
    by (simp add: q ce)
qed

text \<open>
  The claim without the bounds fails. With readings 0 and 1 and the rate
  0.00499999999999999999999999999999 (30 significant digits) the product is rounded by the
  context to 0.005 before \<^verbatim>\<open>quantize\<close> sees it, so the total is 0.01, where the product rounded
  to two decimals half up is 0.00. With readings 0 and \<open>10\<^sup>2\<^sup>7\<close> and the rate 1, \<^verbatim>\<open>quantize\<close>
  raises \<^verbatim>\<open>InvalidOperation\<close>.
\<close>

theorem compute_bill_total_beyond_context_counterexample:
  "(0::decimal) \<le> 1
   \<and> compute_bill (Some 0) (Some 1) (Finite (499999999999999999999999999999 / 10 ^ 32)) =
       Inr \<lparr>units = 1, rate = Finite (499999999999999999999999999999 / 10 ^ 32),
            total = Finite (1 / 100)\<rparr>
   \<and> round_half_up ((1 - 0) * (499999999999999999999999999999 / 10 ^ 32)) = 0
   \<and> (0::decimal) \<le> 10 ^ 27
   \<and> compute_bill (Some 0) (Some (10 ^ 27)) (Finite 1) = Inl InvalidOperation"
  by code_simp

text \<open>
  Claim C8. \<open>compute_units\<close> is 0 as soon as the previous or the current reading is absent,
  whatever the other one is; so a room with no reading before the month is billed 0 units
  and a total of 0, and the bill carries no error, whenever the rate setting is absent or
  holds a finite number.
\<close>

theorem compute_units_absent_reading:
  "compute_units None c = Inr 0
   \<and> compute_units p None = Inr 0
   \<and> (get_room s rid = Some rm
        \<and> get_month_readings rid y m s = Inr (prev, cur)
        \<and> (\<forall>x\<in>set (meter_readings s). reading_room x = rid \<longrightarrow> \<not> reading_date x < (y, m, 1))
        \<and> get_rate s = Inr (Finite r)
      \<longrightarrow> calc_month_bill rid y m s =
            Inr \<lparr>units = 0, rate = Finite r, total = Finite 0, bill_room_id = rid,
                 bill_month = (y, m), previous_reading = None, current_reading = cur,
                 bill_error = None\<rparr>)"
proof -
  have "compute_units None c = Inr 0" "compute_units p None = Inr 0"
    by (simp_all add: compute_units_def split: option.splits)
  moreover have "calc_month_bill rid y m s =
            Inr \<lparr>units = 0, rate = Finite r, total = Finite 0, bill_room_id = rid,
                 bill_month = (y, m), previous_reading = None, current_reading = cur,
                 bill_error = None\<rparr>"
    if "get_room s rid = Some rm" "get_month_readings rid y m s = Inr (prev, cur)"
      "\<forall>x\<in>set (meter_readings s). reading_room x = rid \<longrightarrow> \<not> reading_date x < (y, m, 1)"
      "get_rate s = Inr (Finite r)"
    using that get_month_readings_no_prior[OF that(2,3)]
      calc_month_bill_no_previous[of s rid rm y m cur r]
    by simp
  ultimately show ?thesis by blast
qed

theorem compute_units_absent_reading_witness:
  "compute_units None (Some 80) = Inr 0
   \<and> compute_units (Some 80) None = Inr 0
   \<and> calc_month_bill 1 2024 2 scenario_B =
        Inr \<lparr>units = 0, rate = Finite (21 / 2), total = Finite 0, bill_room_id = 1,
             bill_month = (2024, 2), previous_reading = None, current_reading = Some 80,
             bill_error = None\<rparr>"
proof -
  have r: "get_room scenario_B 1 = Some \<lparr>room_pk = 1, room_number = ''101'', room_status = Vacant\<rparr>"
    by (simp add: get_room_def scenario_B_def empty_db_def)
  have g: "get_month_readings 1 2024 2 scenario_B = Inr (None, Some 80)"
    by (simp add: get_month_readings_def scenario_B_def empty_db_def date_def valid_date_def
      year_of_def month_of_def day_of_def days_in_month_def is_leap_def order_by_desc_def first_def)
  have n: "\<forall>x\<in>set (meter_readings scenario_B). reading_room x = 1 \<longrightarrow> \<not> reading_date x < (2024, 2, 1)"
    by (simp add: scenario_B_def empty_db_def)
  have rt: "get_rate scenario_B = Inr (Finite (21 / 2))"
    by (simp add: get_rate_def scenario_B_def empty_db_def)
  from compute_units_absent_reading[of "Some 80" "Some 80" scenario_B 1 _ 2024 2 None "Some 80" "21 / 2"]
    r g n rt
  show ?thesis by simp
qed

text \<open>
  The claim without the condition on the rate fails. With the rate setting \<^verbatim>\<open>'NaN'\<close>, which
  \<^verbatim>\<open>Decimal\<close> reads, the room of scenario B (no reading before February 2024, the reading 80
  in it) is billed 0 units without error, and the total NaN.
\<close>

theorem no_prior_reading_nan_rate_counterexample:
  "get_month_readings 1 2024 2 scenario_nan_rate = Inr (None, Some 80)
   \<and> get_rate scenario_nan_rate = Inr NaN
   \<and> calc_month_bill 1 2024 2 scenario_nan_rate =
        Inr \<lparr>units = 0, rate = NaN, total = NaN, bill_room_id = 1, bill_month = (2024, 2),
             previous_reading = None, current_reading = Some 80, bill_error = None\<rparr>
   \<and> NaN \<noteq> Finite 0"
  by code_simp

section \<open>Properties of the occupancy engine\<close>

subsection \<open>The unique index as a count\<close>

text \<open>
  A list has no two rows with equal key among those that satisfy \<open>P\<close> exactly when, for every
  key, at most one row satisfying \<open>P\<close> has it.
\<close>

lemma distinct_map_filter_count:
  "distinct (map f (filter P xs)) \<longleftrightarrow> (\<forall>v. length (filter (\<lambda>x. f x = v \<and> P x) xs) \<le> 1)"
proof (induction xs)
  case Nil
  show ?case by simp
next
  case (Cons a xs)
  show ?case
  proof (cases "P a")
    case False
    with Cons show ?thesis by simp
  next
    case True
    have mem: "f a \<in> f ` {x \<in> set xs. P x} \<longleftrightarrow> filter (\<lambda>x. f x = f a \<and> P x) xs \<noteq> []"
      by (force simp: filter_empty_conv image_iff)
    show ?thesis
    proof
      assume d: "distinct (map f (filter P (a # xs)))"
      with True have na: "filter (\<lambda>x. f x = f a \<and> P x) xs = []" and dx: "distinct (map f (filter P xs))"
        using mem by auto
      from dx Cons have le: "\<And>v. length (filter (\<lambda>x. f x = v \<and> P x) xs) \<le> 1" by blast
      show "\<forall>v. length (filter (\<lambda>x. f x = v \<and> P x) (a # xs)) \<le> 1"
      proof
        fix v
        show "length (filter (\<lambda>x. f x = v \<and> P x) (a # xs)) \<le> 1"
          using na le[of v] True by (cases "f a = v") auto
      qed
    next
      assume c: "\<forall>v. length (filter (\<lambda>x. f x = v \<and> P x) (a # xs)) \<le> 1"
      then have "length (filter (\<lambda>x. f x = f a \<and> P x) (a # xs)) \<le> 1" by blast
      with True have na: "filter (\<lambda>x. f x = f a \<and> P x) xs = []" by simp
      have "\<And>v. length (filter (\<lambda>x. f x = v \<and> P x) xs) \<le> 1"
      proof -
        fix v
        from c have "length (filter (\<lambda>x. f x = v \<and> P x) (a # xs)) \<le> 1" by blast
        then show "length (filter (\<lambda>x. f x = v \<and> P x) xs) \<le> 1"
          by (simp split: if_splits)
      qed
      with Cons have "distinct (map f (filter P xs))" by blast
      with na True mem show "distinct (map f (filter P (a # xs)))" by auto
    qed
  qed
qed

lemma unique_active_iff:
  "unique_active_lease_per_room (leases s) \<longleftrightarrow> one_active_lease_per_room s"
  unfolding unique_active_lease_per_room_def one_active_lease_per_room_def active_leases_def
  by (rule distinct_map_filter_count[of lease_room "\<lambda>l. lease_status l = Active" "leases s"])

lemma filter_active_replace_ended:
  "lease_status l2 \<noteq> Active \<Longrightarrow>
   filter (\<lambda>x. lease_status x = Active) (map (\<lambda>x. if lease_pk x = k then l2 else x) ls)
     = filter (\<lambda>x. lease_pk x \<noteq> k) (filter (\<lambda>x. lease_status x = Active) ls)"
  by (induction ls) auto

lemma unique_active_replace_ended:
  assumes "unique_active_lease_per_room ls" and "lease_status l2 \<noteq> Active"
  shows "unique_active_lease_per_room (map (\<lambda>x. if lease_pk x = k then l2 else x) ls)"
  using assms(1) unfolding unique_active_lease_per_room_def filter_active_replace_ended[OF assms(2)]
  by (rule distinct_map_filter)

lemma unique_active_append_ended:
  assumes "unique_active_lease_per_room ls" and "lease_status l2 \<noteq> Active"
  shows "unique_active_lease_per_room (ls @ [l2])"
  using assms by (simp add: unique_active_lease_per_room_def)

subsection \<open>What the operations do to the lease table\<close>

lemma leases_Room_set_status [simp]: "leases (Room_set_status rid st s) = leases s"
  by (simp add: Room_set_status_def)

lemma Model_save_lease_unique:
  "unique_active_lease_per_room (leases s) \<Longrightarrow>
   unique_active_lease_per_room (leases (snd (Model_save_lease l s)))"
  by (simp add: Model_save_lease_def Let_def)

lemma Lease_save_unique:
  "unique_active_lease_per_room (leases s) \<Longrightarrow>
   unique_active_lease_per_room (leases (snd (Lease_save l s)))"
  by (auto simp: Lease_save_def Let_def Model_save_lease_unique split: option.splits)

lemma atomic_cases:
  "snd (atomic f s) = s \<or> snd (atomic f s) = snd (f s)"
  by (auto simp: atomic_def split: prod.splits sum.splits)

lemma leases_Invoice_create [simp]: "leases (snd (Invoice_create rid mth ty sub tx tot s)) = leases s"
  by (simp add: Invoice_create_def Let_def)

lemma leases_InvoiceItem_create [simp]: "leases (InvoiceItem_create iid lbl q r a s) = leases s"
  by (simp add: InvoiceItem_create_def)

lemma atomic_preserves: "P s \<Longrightarrow> P (snd (f s)) \<Longrightarrow> P (snd (atomic f s))"
  using atomic_cases[of f s] by auto

lemma Invoice_create_leases: "Invoice_create rid mth ty sub tx tot s = (r, s') \<Longrightarrow> leases s' = leases s"
  by (auto simp: Invoice_create_def Let_def split: if_splits)

lemma leases_update_room_status [simp]: "leases (update_room_status rid st s) = leases s"
  by (simp add: update_room_status_def split: option.splits)

lemma leases_generate_electricity_invoice [simp]:
  "leases (snd (generate_electricity_invoice rid y m s)) = leases s"
  by (auto simp: generate_electricity_invoice_def split: option.splits sum.splits error.splits prod.splits
      dest!: Invoice_create_leases)

lemma leases_electricity_invoice_create [simp]:
  "leases (snd (electricity_invoice_create rid y m s)) = leases s"
  by (auto simp: electricity_invoice_create_def atomic_def
      split: option.splits sum.splits error.splits prod.splits
      dest!: Invoice_create_leases)

lemma leases_create_monthly_invoice [simp]:
  "leases (snd (create_monthly_invoice rm mth rent eu er s)) = leases s"
  unfolding create_monthly_invoice_def
  apply (rule atomic_preserves[where P = "\<lambda>t. leases t = leases s"])
  subgoal by simp
  subgoal by (auto simp: Let_def split: option.splits sum.splits prod.splits dest!: Invoice_create_leases)
  done

subsection \<open>A reachable state with an occupied room\<close>

lemmas eval_defs =
  empty_db_def get_room_def get_tenant_def Room_set_status_def unique_active_lease_per_room_def
  end_date_after_start_date_def monthly_rent_positive_def Model_save_lease_def Invoice_create_def
  InvoiceItem_create_def atomic_def pk_set_def Lease_clean_def Lease_save_def
  order_by_desc_def first_def date_def valid_date_def year_of_def month_of_def day_of_def
  days_in_month_def is_leap_def Let_def

lemma scenario_C_created:
  "create_lease asha room_101 (2024, 1, 10) 5000 0 1 scenario_vacant = (Inr asha_lease, scenario_C)"
  by (simp add: create_lease_def scenario_vacant_def scenario_C_def asha_def ben_def room_101_def
      asha_lease_def eval_defs)

lemma scenario_C_reachable: "reachable scenario_C"
proof -
  have "reachable scenario_vacant"
    using reachable.add_tenant[OF reachable.add_tenant[OF reachable.add_room[OF reachable.start, of room_101], of asha], of ben]
    by (simp add: scenario_vacant_def empty_db_def)
  from reachable.lease_created[OF this, of asha room_101 "(2024, 1, 10)" 5000 0 1]
  show ?thesis by (simp add: scenario_C_created)
qed

subsection \<open>Validation and the unique index\<close>

text \<open>
  In a table with distinct primary keys and one active lease per room, a lease that passes
  \<open>Lease_clean\<close> can be written without breaking the unique index.
\<close>

lemma map_replace_absent:
  "k \<notin> set (map lease_pk ls) \<Longrightarrow> map (\<lambda>x. if lease_pk x = k then l else x) ls = ls"
  by (induction ls) auto

lemma map_pk_replace:
  "lease_pk l = k \<Longrightarrow> map lease_pk (map (\<lambda>x. if lease_pk x = k then l else x) ls) = map lease_pk ls"
  by (induction ls) auto

lemma replace_active_rooms:
  assumes "distinct (map lease_pk ls)"
    and "distinct (map lease_room (filter (\<lambda>x. lease_status x = Active) ls))"
    and "\<forall>x\<in>set ls. lease_room x = lease_room l \<and> lease_status x = Active \<longrightarrow> lease_pk x = lease_pk l"
  shows "distinct (map lease_room (filter (\<lambda>x. lease_status x = Active)
            (map (\<lambda>x. if lease_pk x = lease_pk l then l else x) ls)))
         \<and> set (map lease_room (filter (\<lambda>x. lease_status x = Active)
            (map (\<lambda>x. if lease_pk x = lease_pk l then l else x) ls)))
           \<subseteq> insert (lease_room l) (set (map lease_room (filter (\<lambda>x. lease_status x = Active) ls)))"
  using assms
proof (induction ls)
  case Nil
  show ?case by simp
next
  case (Cons a ls)
  let ?g = "\<lambda>x. if lease_pk x = lease_pk l then l else x"
  let ?A = "\<lambda>x. lease_status x = Active"
  from Cons.prems have d: "distinct (map lease_pk ls)" and na: "lease_pk a \<notin> set (map lease_pk ls)"
    by simp_all
  from Cons.prems(2) have dr: "distinct (map lease_room (filter ?A ls))"
    by (simp split: if_splits)
  from Cons.prems(3) have st: "\<forall>x\<in>set ls. lease_room x = lease_room l \<and> ?A x \<longrightarrow> lease_pk x = lease_pk l"
    by simp
  note IH = Cons.IH[OF d dr st]
  show ?case
  proof (cases "lease_pk a = lease_pk l")
    case True
    with na have "lease_pk l \<notin> set (map lease_pk ls)" by simp
    then have same: "map ?g ls = ls" by (rule map_replace_absent)
    have "lease_room l \<notin> set (map lease_room (filter ?A ls))"
    proof
      assume "lease_room l \<in> set (map lease_room (filter ?A ls))"
      then obtain x where "x \<in> set ls" "?A x" "lease_room x = lease_room l" by auto
      with st have "lease_pk x = lease_pk l" by blast
      with \<open>x \<in> set ls\<close> \<open>lease_pk l \<notin> set (map lease_pk ls)\<close> show False by (auto simp: image_iff)
    qed
    with dr True same show ?thesis by auto
  next
    case False
    show ?thesis
    proof (cases "?A a")
      case nact: False
      with False IH show ?thesis by auto
    next
      case act: True
      from Cons.prems(3) False act have nr: "lease_room a \<noteq> lease_room l" by auto
      from Cons.prems(2) act have "lease_room a \<notin> set (map lease_room (filter ?A ls))" by simp
      with IH nr have "lease_room a \<notin> set (map lease_room (filter ?A (map ?g ls)))" by blast
      with False act IH show ?thesis by auto
    qed
  qed
qed

lemma Lease_clean_active_others:
  assumes "Lease_clean l s = None" and "lease_status l = Active"
  shows "\<forall>x\<in>set (leases s). lease_room x = lease_room l \<and> lease_status x = Active
            \<longrightarrow> pk_set l \<and> lease_pk x = lease_pk l"
  using assms
  by (auto simp: Lease_clean_def filter_empty_conv split: if_splits option.splits)

lemma clean_then_unique_written:
  assumes u: "unique_active_lease_per_room (leases s)" and d: "lease_pks_distinct (leases s)"
    and c: "Lease_clean l s = None"
  shows "fst (Lease_save l s) \<noteq> Inl (IntegrityError ''unique_active_lease_per_room'')"
proof -
  define l' where "l' = (case lease_pk l of None \<Rightarrow> l\<lparr>lease_pk := Some (lease_seq s)\<rparr> | Some k \<Rightarrow> l)"
  define ls' where "ls' = (if lease_pk l' \<in> set (map lease_pk (leases s))
                 then map (\<lambda>x. if lease_pk x = lease_pk l' then l' else x) (leases s)
                 else leases s @ [l'])"
  have st: "lease_status l' = lease_status l" and rm: "lease_room l' = lease_room l"
    by (simp_all add: l'_def split: option.splits)
  have ok: "unique_active_lease_per_room ls'"
    if fresh: "lease_pk l = None \<longrightarrow> lease_pk l' \<notin> set (map lease_pk (leases s))"
  proof (cases "lease_status l = Active")
    case False
    then have "lease_status l' \<noteq> Active" using st by simp
    then show ?thesis
      unfolding ls'_def
      using unique_active_replace_ended[OF u, of l' "lease_pk l'"] unique_active_append_ended[OF u, of l']
      by simp
  next
    case True
    note o = Lease_clean_active_others[OF c True]
    have others: "\<forall>x\<in>set (leases s). lease_room x = lease_room l' \<and> lease_status x = Active
                    \<longrightarrow> lease_pk x = lease_pk l'"
    proof (intro ballI impI)
      fix x assume x: "x \<in> set (leases s)" "lease_room x = lease_room l' \<and> lease_status x = Active"
      with o rm have p: "pk_set l" "lease_pk x = lease_pk l" by auto
      from p(1) have "lease_pk l' = lease_pk l" by (auto simp: l'_def pk_set_def split: option.splits)
      with p(2) show "lease_pk x = lease_pk l'" by simp
    qed
    show ?thesis
    proof (cases "lease_pk l' \<in> set (map lease_pk (leases s))")
      case in_table: True
      from replace_active_rooms[OF d[unfolded lease_pks_distinct_def] u[unfolded unique_active_lease_per_room_def] others]
      show ?thesis unfolding ls'_def unique_active_lease_per_room_def using in_table by simp
    next
      case new: False
      have "lease_room l' \<notin> set (map lease_room (filter (\<lambda>x. lease_status x = Active) (leases s)))"
      proof
        assume "lease_room l' \<in> set (map lease_room (filter (\<lambda>x. lease_status x = Active) (leases s)))"
        then obtain x where x: "x \<in> set (leases s)" "lease_status x = Active" "lease_room x = lease_room l'"
          by auto
        with others have "lease_pk x = lease_pk l'" by blast
        with x(1) new show False by (auto simp: image_iff)
      qed
      with u new show ?thesis
        unfolding ls'_def unique_active_lease_per_room_def by simp
    qed
  qed
  have ms: "fst (Model_save_lease l t) \<noteq> Inl (IntegrityError ''unique_active_lease_per_room'')"
    if t: "leases t = leases s" "lease_seq t = lease_seq s" for t
  proof -
    have eq: "Model_save_lease l t =
       (if lease_pk l = None \<and> lease_pk l' \<in> set (map lease_pk (leases s))
          then (Inl (IntegrityError ''core_lease_pkey''), t)
        else if \<not> end_date_after_start_date l'
          then (Inl (IntegrityError ''end_date_after_start_date''), t)
        else if \<not> monthly_rent_positive l'
          then (Inl (IntegrityError ''monthly_rent_positive''), t)
        else if \<not> unique_active_lease_per_room ls'
          then (Inl (IntegrityError ''unique_active_lease_per_room''), t)
        else (Inr l', t\<lparr>leases := ls',
                lease_seq := (if lease_pk l = None then Suc (lease_seq t) else lease_seq t)\<rparr>))"
      unfolding Model_save_lease_def Let_def l'_def ls'_def t by simp
    show ?thesis
    proof (cases "lease_pk l = None \<and> lease_pk l' \<in> set (map lease_pk (leases s))")
      case True
      then show ?thesis unfolding eq by simp
    next
      case False
      then have "unique_active_lease_per_room ls'" using ok by blast
      then show ?thesis unfolding eq by simp
    qed
  qed
  show ?thesis
    using c ms[of s] ms[of "Room_set_status (lease_room l) Occupied s"]
      ms[of "Room_set_status (lease_room l) Vacant s"]
    by (simp add: Lease_save_def Room_set_status_def)
qed

subsection \<open>The lease table in reachable states\<close>

lemma Model_save_lease_written:
  "leases (snd (Model_save_lease l s)) = leases s
   \<or> (lease_pk l \<in> set (map lease_pk (leases s)) \<and>
        leases (snd (Model_save_lease l s)) =
          map (\<lambda>x. if lease_pk x = lease_pk l then l else x) (leases s))
   \<or> (\<exists>l'. lease_pk l' \<notin> set (map lease_pk (leases s)) \<and>
        leases (snd (Model_save_lease l s)) = leases s @ [l'])"
proof (cases "lease_pk l")
  case None
  then show ?thesis by (simp add: Model_save_lease_def Let_def)
next
  case (Some k)
  then show ?thesis by (simp add: Model_save_lease_def Let_def)
qed

lemma Model_save_lease_pks:
  assumes "lease_pks_distinct (leases s)"
  shows "lease_pks_distinct (leases (snd (Model_save_lease l s)))"
proof -
  consider
    (same) "leases (snd (Model_save_lease l s)) = leases s"
  | (replaced) "leases (snd (Model_save_lease l s)) =
          map (\<lambda>x. if lease_pk x = lease_pk l then l else x) (leases s)"
  | (inserted) l' where "lease_pk l' \<notin> set (map lease_pk (leases s))"
        "leases (snd (Model_save_lease l s)) = leases s @ [l']"
    using Model_save_lease_written[of l s] by blast
  then show ?thesis
  proof cases
    case same
    with assms show ?thesis by simp
  next
    case replaced
    have "map lease_pk (leases (snd (Model_save_lease l s))) = map lease_pk (leases s)"
      unfolding replaced by (rule map_pk_replace) simp
    with assms show ?thesis by (simp add: lease_pks_distinct_def)
  next
    case inserted
    with assms show ?thesis by (simp add: lease_pks_distinct_def)
  qed
qed

lemma Lease_save_pks:
  "lease_pks_distinct (leases s) \<Longrightarrow> lease_pks_distinct (leases (snd (Lease_save l s)))"
  by (auto simp: Lease_save_def Let_def Model_save_lease_pks split: option.splits)

lemma create_lease_leases_pres:
  assumes "P (leases s)" and "\<And>l. P (leases (snd (Lease_save l s)))"
  shows "P (leases (snd (create_lease tnt rm start rent dep bday s)))"
  unfolding create_lease_def
  apply (rule atomic_preserves[where P = "\<lambda>s. P (leases s)"])
  subgoal by (rule assms)
  subgoal using assms(1)
      assms(2)[of "\<lparr>lease_pk = None, lease_tenant = tenant_pk tnt, lease_room = room_pk rm,
                      start_date = start, end_date = None, monthly_rent = rent,
                      deposit = dep, billing_day = bday, lease_status = Active\<rparr>"]
    by (auto split: option.splits prod.splits sum.splits if_splits simp: Let_def
          dest!: Invoice_create_leases)
  done

lemma end_lease_leases_pres:
  assumes "P (leases s)" and "\<And>l. P (leases (snd (Lease_save l s)))"
  shows "P (leases (snd (end_lease l e s)))"
  unfolding end_lease_def
  apply (rule atomic_preserves[where P = "\<lambda>s. P (leases s)"])
  subgoal by (rule assms)
  subgoal using assms(1) assms(2)[of "l\<lparr>lease_status := Ended, end_date := Some e\<rparr>"]
    by (auto split: option.splits prod.splits sum.splits if_splits simp: Let_def)
  done

lemma update_lease_tenant_leases_pres:
  assumes "P (leases s)" and "\<And>l. P (leases (snd (Lease_save l s)))"
  shows "P (leases (snd (update_lease_tenant lid tid s)))"
proof (cases "find (\<lambda>l. lease_pk l = Some lid) (leases s)")
  case None
  with assms(1) show ?thesis by (simp add: update_lease_tenant_def)
next
  case found: (Some l)
  show ?thesis
  proof (cases tid)
    case None
    with found assms(1) show ?thesis by (simp add: update_lease_tenant_def)
  next
    case posted: (Some t)
    show ?thesis
    proof (cases "get_tenant s t")
      case None
      with posted found assms(1) show ?thesis by (simp add: update_lease_tenant_def)
    next
      case (Some tn)
      from assms(2)[of "l\<lparr>lease_tenant := tenant_pk tn\<rparr>"]
      show ?thesis using Some posted found
        by (auto simp: update_lease_tenant_def split: prod.splits sum.splits)
    qed
  qed
qed

lemma lease_table_ok_filter:
  assumes "lease_table_ok ls"
  shows "lease_table_ok (filter P ls)"
proof -
  have c: "filter (\<lambda>x. lease_status x = Active) (filter P ls)
          = filter P (filter (\<lambda>x. lease_status x = Active) ls)"
    by (induction ls) auto
  from assms have "distinct (map lease_room (filter (\<lambda>x. lease_status x = Active) ls))"
    and d: "distinct (map lease_pk ls)"
    by (simp_all add: lease_table_ok_def unique_active_lease_per_room_def lease_pks_distinct_def)
  then have "distinct (map lease_room (filter P (filter (\<lambda>x. lease_status x = Active) ls)))"
    by (simp only: distinct_map_filter)
  then have "unique_active_lease_per_room (filter P ls)"
    unfolding unique_active_lease_per_room_def c .
  moreover from d have "lease_pks_distinct (filter P ls)"
    unfolding lease_pks_distinct_def by (rule distinct_map_filter)
  ultimately show ?thesis by (simp add: lease_table_ok_def)
qed

lemma Lease_save_table_ok:
  "lease_table_ok (leases s) \<Longrightarrow> lease_table_ok (leases (snd (Lease_save l s)))"
  by (simp add: lease_table_ok_def Lease_save_unique Lease_save_pks)

lemma reachable_table_ok: "reachable s \<Longrightarrow> lease_table_ok (leases s)"
proof (induction rule: reachable.induct)
  case start
  show ?case
    by (simp add: empty_db_def lease_table_ok_def unique_active_lease_per_room_def lease_pks_distinct_def)
next
  case (save_lease s l)
  from save_lease.IH show ?case by (rule Lease_save_table_ok)
next
  case (lease_created s tnt rm start rent dep bday)
  note ih = lease_created.IH
  show ?case
    by (rule create_lease_leases_pres[where P = lease_table_ok, OF ih Lease_save_table_ok[OF ih]])
next
  case (lease_ended s l e)
  note ih = lease_ended.IH
  show ?case
    by (rule end_lease_leases_pres[where P = lease_table_ok, OF ih Lease_save_table_ok[OF ih]])
next
  case (tenant_changed s lid tid)
  note ih = tenant_changed.IH
  show ?case
    by (rule update_lease_tenant_leases_pres[where P = lease_table_ok, OF ih Lease_save_table_ok[OF ih]])
next
  case (lease_deleted s k)
  then show ?case by (simp add: Lease_delete_def lease_table_ok_filter)
qed simp_all

text \<open>
  Claim C1. In every state the application reaches, each room has at most one lease with
  status active; and from any state with that property, creating a lease, ending a lease
  and saving a lease (which validates it first) lead to a state with that property.
  Both mechanisms of the source enforce it: the partial unique index lets no write
  through that would break it, and in a reachable state a lease that passes \<open>Lease_clean\<close>
  never runs into that index.
\<close>

theorem one_active_lease_invariant:
  "(reachable s \<longrightarrow> one_active_lease_per_room s)
   \<and> (one_active_lease_per_room s \<longrightarrow>
        one_active_lease_per_room (snd (create_lease tnt rm start rent dep bday s))
        \<and> one_active_lease_per_room (snd (end_lease l e s))
        \<and> one_active_lease_per_room (snd (Lease_save l' s)))
   \<and> (reachable s \<and> Lease_clean l' s = None \<longrightarrow>
        fst (Lease_save l' s) \<noteq> Inl (IntegrityError ''unique_active_lease_per_room''))"
proof -
  have r: "one_active_lease_per_room s" if "reachable s"
    using reachable_table_ok[OF that] by (simp add: lease_table_ok_def unique_active_iff)
  have p: "one_active_lease_per_room (snd (create_lease tnt rm start rent dep bday s))
        \<and> one_active_lease_per_room (snd (end_lease l e s))
        \<and> one_active_lease_per_room (snd (Lease_save l' s))"
    if "one_active_lease_per_room s"
  proof -
    from that have u: "unique_active_lease_per_room (leases s)" by (simp add: unique_active_iff)
    have "unique_active_lease_per_room (leases (snd (create_lease tnt rm start rent dep bday s)))"
      by (rule create_lease_leases_pres[where P = unique_active_lease_per_room, OF u Lease_save_unique[OF u]])
    moreover have "unique_active_lease_per_room (leases (snd (end_lease l e s)))"
      by (rule end_lease_leases_pres[where P = unique_active_lease_per_room, OF u Lease_save_unique[OF u]])
    moreover note Lease_save_unique[OF u, of l']
    ultimately show ?thesis by (simp add: unique_active_iff)
  qed
  have v: "fst (Lease_save l' s) \<noteq> Inl (IntegrityError ''unique_active_lease_per_room'')"
    if "reachable s" "Lease_clean l' s = None"
    using reachable_table_ok[OF that(1)] clean_then_unique_written[OF _ _ that(2)]
    by (simp add: lease_table_ok_def)
  from r p v show ?thesis by blast
qed

theorem one_active_lease_invariant_witness:
  "reachable scenario_C
   \<and> length (active_leases scenario_C 1) = 1
   \<and> one_active_lease_per_room scenario_C
   \<and> one_active_lease_per_room (snd (create_lease ben room_101 (2024, 2, 1) 4000 0 1 scenario_C))
   \<and> one_active_lease_per_room (snd (end_lease asha_lease (2024, 3, 1) scenario_C))
   \<and> one_active_lease_per_room
        (snd (Lease_save (asha_lease\<lparr>lease_pk := None, lease_tenant := 8\<rparr>) scenario_C))
   \<and> Lease_clean (asha_lease\<lparr>lease_tenant := 8\<rparr>) scenario_C = None
   \<and> fst (Lease_save (asha_lease\<lparr>lease_tenant := 8\<rparr>) scenario_C)
        \<noteq> Inl (IntegrityError ''unique_active_lease_per_room'')"
proof -
  have n: "length (active_leases scenario_C 1) = 1"
    by (simp add: active_leases_def scenario_C_def asha_lease_def)
  have c: "Lease_clean (asha_lease\<lparr>lease_tenant := 8\<rparr>) scenario_C = None"
    by (simp add: Lease_clean_def pk_set_def scenario_C_def asha_lease_def)
  from one_active_lease_invariant[of scenario_C ben room_101 "(2024, 2, 1)" 4000 0 1
      asha_lease "(2024, 3, 1)" "asha_lease\<lparr>lease_pk := None, lease_tenant := 8\<rparr>"]
    one_active_lease_invariant[of scenario_C ben room_101 "(2024, 2, 1)" 4000 0 1
      asha_lease "(2024, 3, 1)" "asha_lease\<lparr>lease_tenant := 8\<rparr>"]
    scenario_C_reachable n c
  show ?thesis by blast
qed

subsection \<open>Creating a lease on an occupied room\<close>

lemma first_Some_mem: "first xs = Some x \<Longrightarrow> x \<in> set xs"
  by (auto simp: first_def split: list.splits)

text \<open>
  Claim C6. Creating a lease on a room that has an active lease fails: the error message
  names the tenant of an active lease of that room (the only one, by the invariant), and
  the database is exactly as before, so no lease row is added and the room keeps its
  status. The source raises Django's \<^verbatim>\<open>ValidationError\<close> here; it has no separate class for
  conflicts. The second hypothesis is referential integrity: the tenant of every lease
  exists.
\<close>

theorem create_lease_conflict:
  "active_leases s (room_pk rm) \<noteq> [] \<Longrightarrow>
   (\<forall>l\<in>set (leases s). get_tenant s (lease_tenant l) \<noteq> None) \<Longrightarrow>
   \<exists>existing t.
      existing \<in> set (active_leases s (room_pk rm))
      \<and> get_tenant s (lease_tenant existing) = Some t
      \<and> create_lease tnt rm start rent dep bday s =
          (Inl (ValidationError (''Room '' @ room_number rm @
                  '' already has an active lease with '' @ full_name t)), s)"
proof -
  assume ne: "active_leases s (room_pk rm) \<noteq> []"
    and fk: "\<forall>l\<in>set (leases s). get_tenant s (lease_tenant l) \<noteq> None"
  from ne obtain ex where
    ex: "first (order_by_desc start_date (active_leases s (room_pk rm))) = Some ex"
    by (cases "first (order_by_desc start_date (active_leases s (room_pk rm)))") auto
  from first_Some_mem[OF ex] have mem: "ex \<in> set (active_leases s (room_pk rm))" by simp
  then have "ex \<in> set (leases s)" by (simp add: active_leases_def)
  with fk obtain t where t: "get_tenant s (lease_tenant ex) = Some t" by auto
  have "create_lease tnt rm start rent dep bday s =
          (Inl (ValidationError (''Room '' @ room_number rm @
                  '' already has an active lease with '' @ full_name t)), s)"
    using ex t by (simp add: create_lease_def atomic_def active_leases_def)
  with mem t show ?thesis by blast
qed

theorem create_lease_conflict_witness:
  "active_leases scenario_C 1 = [asha_lease]
   \<and> create_lease ben room_101 (2024, 2, 1) 4000 0 1 scenario_C =
       (Inl (ValidationError ''Room 101 already has an active lease with Asha''), scenario_C)"
proof -
  have a: "active_leases scenario_C (room_pk room_101) = [asha_lease]"
    by (simp add: active_leases_def scenario_C_def asha_lease_def room_101_def)
  then have ne: "active_leases scenario_C (room_pk room_101) \<noteq> []" by simp
  have fk: "\<forall>l\<in>set (leases scenario_C). get_tenant scenario_C (lease_tenant l) \<noteq> None"
    by (simp add: scenario_C_def asha_lease_def get_tenant_def asha_def)
  have t: "get_tenant scenario_C (lease_tenant asha_lease) = Some asha"
    by (simp add: scenario_C_def asha_lease_def get_tenant_def asha_def)
  from create_lease_conflict[OF ne fk, of ben "(2024, 2, 1)" 4000 0 1] a t
  show ?thesis by (auto simp: room_101_def asha_def)
qed

subsection \<open>Ending a lease\<close>

lemma Room_set_status_idem [simp]:
  "Room_set_status rid st (Room_set_status rid st s) = Room_set_status rid st s"
  by (simp add: Room_set_status_def o_def cong: map_cong)

lemma rooms_Room_set_status:
  "rooms (Room_set_status rid st s) =
     map (\<lambda>r. if room_pk r = rid then r\<lparr>room_status := st\<rparr> else r) (rooms s)"
  by (simp add: Room_set_status_def)

lemma Model_save_ended:
  assumes "lease_status l2 = Ended" and "lease_pk l2 = Some k" and "end_date_after_start_date l2"
    and "0 < monthly_rent l2" and "unique_active_lease_per_room (leases s)"
  shows "Model_save_lease l2 s =
           (Inr l2, s\<lparr>leases := (if Some k \<in> set (map lease_pk (leases s))
                                  then map (\<lambda>x. if lease_pk x = Some k then l2 else x) (leases s)
                                  else leases s @ [l2])\<rparr>)"
proof -
  have ne: "lease_status l2 \<noteq> Active" using assms(1) by simp
  show ?thesis
    using assms unique_active_replace_ended[OF assms(5) ne, of "Some k"]
      unique_active_append_ended[OF assms(5) ne]
    by (simp add: Model_save_lease_def monthly_rent_positive_def)
qed

lemma end_lease_success:
  assumes act: "lease_status l = Active" and lt: "start_date l < e" and pk: "lease_pk l = Some k"
    and rent: "0 < monthly_rent l" and uniq: "unique_active_lease_per_room (leases s)"
  shows "end_lease l e s =
           (Inr (l\<lparr>lease_status := Ended, end_date := Some e\<rparr>),
            (Room_set_status (lease_room l) Vacant s)
              \<lparr>leases := (if Some k \<in> set (map lease_pk (leases s))
                          then map (\<lambda>x. if lease_pk x = Some k
                                         then l\<lparr>lease_status := Ended, end_date := Some e\<rparr>
                                         else x) (leases s)
                          else leases s @ [l\<lparr>lease_status := Ended, end_date := Some e\<rparr>])\<rparr>)"
proof -
  let ?l2 = "l\<lparr>lease_status := Ended, end_date := Some e\<rparr>"
  have cl: "Lease_clean ?l2 s = None"
    using lt by (simp add: Lease_clean_def)
  have e2: "end_date_after_start_date ?l2" using lt by (simp add: end_date_after_start_date_def)
  have ms: "\<And>t. leases t = leases s \<Longrightarrow> Model_save_lease ?l2 t =
           (Inr ?l2, t\<lparr>leases := (if Some k \<in> set (map lease_pk (leases s))
                                  then map (\<lambda>x. if lease_pk x = Some k then ?l2 else x) (leases s)
                                  else leases s @ [?l2])\<rparr>)"
    using Model_save_ended[of ?l2 k] pk e2 rent uniq by simp
  show ?thesis
    using act lt cl ms[of s] ms[of "Room_set_status (lease_room l) Vacant s"]
    by (simp add: end_lease_def atomic_def Lease_save_def Room_set_status_def)
qed

text \<open>
  Claim C3, amended. Ending a lease that is not active fails (the source raises
  \<^verbatim>\<open>ValidationError\<close> with the message \<open>Lease is not active\<close>). Ending an active lease on
  a date before its start date, or on the start date itself, fails with a validation error
  and changes nothing: \<open>end_lease\<close> itself refuses only dates before the start, but it then
  saves the lease, and \<open>Lease_clean\<close> refuses an end date that is not after the start date.
  Ending an active, persisted lease on a later date succeeds (the database satisfying its
  constraints): the lease returned and stored under its key has status ended and the given
  end date, and the room of the lease is vacant.
\<close>

theorem end_lease_effect:
  "(lease_status l \<noteq> Active \<longrightarrow>
      end_lease l e s = (Inl (ValidationError ''Lease is not active''), s))
   \<and> (lease_status l = Active \<and> e < start_date l \<longrightarrow>
      end_lease l e s = (Inl (ValidationError ''End date cannot be before start date''), s))
   \<and> (lease_status l = Active \<and> e = start_date l \<longrightarrow>
      end_lease l e s = (Inl (ValidationError ''End date must be after start date.''), s))
   \<and> (lease_status l = Active \<and> start_date l < e \<and> lease_pk l = Some k \<and> 0 < monthly_rent l
        \<and> unique_active_lease_per_room (leases s) \<longrightarrow>
      fst (end_lease l e s) = Inr (l\<lparr>lease_status := Ended, end_date := Some e\<rparr>)
      \<and> l\<lparr>lease_status := Ended, end_date := Some e\<rparr> \<in> set (leases (snd (end_lease l e s)))
      \<and> (\<forall>x\<in>set (leases (snd (end_lease l e s))).
            lease_pk x = Some k \<longrightarrow> x = l\<lparr>lease_status := Ended, end_date := Some e\<rparr>)
      \<and> rooms (snd (end_lease l e s)) =
          map (\<lambda>r. if room_pk r = lease_room l then r\<lparr>room_status := Vacant\<rparr> else r) (rooms s))"
proof -
  have a: "lease_status l \<noteq> Active \<longrightarrow>
      end_lease l e s = (Inl (ValidationError ''Lease is not active''), s)"
    by (simp add: end_lease_def atomic_def)
  have b: "lease_status l = Active \<and> e < start_date l \<longrightarrow>
      end_lease l e s = (Inl (ValidationError ''End date cannot be before start date''), s)"
    by (simp add: end_lease_def atomic_def)
  have c: "lease_status l = Active \<and> e = start_date l \<longrightarrow>
      end_lease l e s = (Inl (ValidationError ''End date must be after start date.''), s)"
    by (simp add: end_lease_def atomic_def Lease_save_def Lease_clean_def)
  have d: "fst (end_lease l e s) = Inr (l\<lparr>lease_status := Ended, end_date := Some e\<rparr>)
      \<and> l\<lparr>lease_status := Ended, end_date := Some e\<rparr> \<in> set (leases (snd (end_lease l e s)))
      \<and> (\<forall>x\<in>set (leases (snd (end_lease l e s))).
            lease_pk x = Some k \<longrightarrow> x = l\<lparr>lease_status := Ended, end_date := Some e\<rparr>)
      \<and> rooms (snd (end_lease l e s)) =
          map (\<lambda>r. if room_pk r = lease_room l then r\<lparr>room_status := Vacant\<rparr> else r) (rooms s)"
    if h: "lease_status l = Active" "start_date l < e" "lease_pk l = Some k" "0 < monthly_rent l"
      "unique_active_lease_per_room (leases s)"
    unfolding end_lease_success[OF h]
    using h(3) by (auto simp: rooms_Room_set_status image_iff)
  from a b c d show ?thesis by blast
qed

theorem end_lease_effect_witness:
  "end_lease (asha_lease\<lparr>lease_status := Ended\<rparr>) (2024, 3, 1) scenario_C
      = (Inl (ValidationError ''Lease is not active''), scenario_C)
   \<and> end_lease asha_lease (2024, 1, 9) scenario_C
      = (Inl (ValidationError ''End date cannot be before start date''), scenario_C)
   \<and> end_lease asha_lease (start_date asha_lease) scenario_C
      = (Inl (ValidationError ''End date must be after start date.''), scenario_C)
   \<and> fst (end_lease asha_lease (2024, 3, 1) scenario_C)
      = Inr (asha_lease\<lparr>lease_status := Ended, end_date := Some (2024, 3, 1)\<rparr>)
   \<and> leases (snd (end_lease asha_lease (2024, 3, 1) scenario_C))
      = [asha_lease\<lparr>lease_status := Ended, end_date := Some (2024, 3, 1)\<rparr>]
   \<and> rooms (snd (end_lease asha_lease (2024, 3, 1) scenario_C))
      = [\<lparr>room_pk = 1, room_number = ''101'', room_status = Vacant\<rparr>]"
proof -
  have u: "unique_active_lease_per_room (leases scenario_C)"
    by (simp add: unique_active_lease_per_room_def scenario_C_def)
  have f: "lease_status asha_lease = Active" "start_date asha_lease < (2024, 3, 1)"
    "(2024, 1, 9) < start_date asha_lease" "lease_pk asha_lease = Some 1"
    "0 < monthly_rent asha_lease" "lease_room asha_lease = 1"
    by (simp_all add: asha_lease_def)
  have l: "leases (snd (end_lease asha_lease (2024, 3, 1) scenario_C))
      = [asha_lease\<lparr>lease_status := Ended, end_date := Some (2024, 3, 1)\<rparr>]"
    unfolding end_lease_success[OF f(1,2,4,5) u] by (simp add: scenario_C_def f)
  from end_lease_effect[of "asha_lease\<lparr>lease_status := Ended\<rparr>" "(2024, 3, 1)" scenario_C 1]
    end_lease_effect[of asha_lease "(2024, 1, 9)" scenario_C 1]
    end_lease_effect[of asha_lease "start_date asha_lease" scenario_C 1]
    end_lease_effect[of asha_lease "(2024, 3, 1)" scenario_C 1] u f l
  show ?thesis by (simp add: scenario_C_def)
qed

text \<open>
  Claim C3 as stated fails when the end date is the start date: the lease is active and
  the end date is not before the start date, yet the call raises and changes nothing.
\<close>

theorem end_lease_same_day_counterexample:
  "lease_status asha_lease = Active
   \<and> (2024, 1, 10) \<ge> start_date asha_lease
   \<and> end_lease asha_lease (2024, 1, 10) scenario_C
      = (Inl (ValidationError ''End date must be after start date.''), scenario_C)"
  by (simp add: end_lease_def atomic_def Lease_save_def Lease_clean_def asha_lease_def)

subsection \<open>Saving an ended lease\<close>

lemma Lease_clean_ended:
  "lease_status l = Ended \<Longrightarrow> end_date_after_start_date l \<Longrightarrow> Lease_clean l s = None"
  by (auto simp: Lease_clean_def end_date_after_start_date_def split: option.splits)

lemma Model_save_lease_rooms [simp]: "rooms (snd (Model_save_lease l s)) = rooms s"
  by (simp add: Model_save_lease_def Let_def)

lemma Model_save_lease_keeps_others:
  "x \<in> set (leases s) \<Longrightarrow> lease_pk x \<noteq> lease_pk l \<Longrightarrow> lease_pk l \<noteq> None \<Longrightarrow>
   x \<in> set (leases (snd (Model_save_lease l s)))"
  by (auto simp: Model_save_lease_def Let_def image_iff)

lemma Lease_save_ended:
  assumes "pk_set l" and "lease_status l = Ended" and "end_date_after_start_date l"
  shows "snd (Lease_save l s) = snd (Model_save_lease l (Room_set_status (lease_room l) Vacant s))"
  using assms by (simp add: Lease_save_def Lease_clean_ended)

lemma end_date_after_start_date_tenant [simp]:
  "end_date_after_start_date (l\<lparr>lease_tenant := x\<rparr>) = end_date_after_start_date l"
  by (simp add: end_date_after_start_date_def cong: option.case_cong)

lemma find_lease_pk: "find (\<lambda>x. lease_pk x = Some k) ls = Some l \<Longrightarrow> lease_pk l = Some k \<and> l \<in> set ls"
  by (auto simp: find_Some_iff)

text \<open>
  Claim C10. Saving a persisted lease whose status is ended (and whose dates pass the
  validation, as those of every stored row do) sets the status of its room to vacant,
  whatever else is stored: whether or not the database accepts the lease row afterwards,
  and whatever other leases the room has; those stay as they are. In particular the
  inline edit that only reassigns the tenant of an ended lease marks the room vacant, also
  when the room has an active lease.
\<close>

theorem ended_lease_save_vacates_room:
  "(pk_set l \<and> lease_status l = Ended \<and> end_date_after_start_date l \<longrightarrow>
      rooms (snd (Lease_save l s)) =
        map (\<lambda>r. if room_pk r = lease_room l then r\<lparr>room_status := Vacant\<rparr> else r) (rooms s)
      \<and> (\<forall>x\<in>set (leases s). lease_pk x \<noteq> lease_pk l \<longrightarrow> x \<in> set (leases (snd (Lease_save l s)))))
   \<and> (find (\<lambda>x. lease_pk x = Some k) (leases s) = Some l0 \<and> k \<noteq> 0 \<and> lease_status l0 = Ended
        \<and> end_date_after_start_date l0 \<and> get_tenant s tid = Some t \<longrightarrow>
      rooms (snd (update_lease_tenant k (Some tid) s)) =
        map (\<lambda>r. if room_pk r = lease_room l0 then r\<lparr>room_status := Vacant\<rparr> else r) (rooms s)
      \<and> (\<forall>x\<in>set (leases s). lease_pk x \<noteq> Some k \<longrightarrow>
            x \<in> set (leases (snd (update_lease_tenant k (Some tid) s)))))"
proof -
  have gen: "rooms (snd (Lease_save l s)) =
        map (\<lambda>r. if room_pk r = lease_room l then r\<lparr>room_status := Vacant\<rparr> else r) (rooms s)
      \<and> (\<forall>x\<in>set (leases s). lease_pk x \<noteq> lease_pk l \<longrightarrow> x \<in> set (leases (snd (Lease_save l s))))"
    if h: "pk_set l" "lease_status l = Ended" "end_date_after_start_date l" for l
  proof -
    from h(1) have nn: "lease_pk l \<noteq> None" by (auto simp: pk_set_def split: option.splits)
    show ?thesis
      unfolding Lease_save_ended[OF h]
      using nn Model_save_lease_keeps_others[of _ "Room_set_status (lease_room l) Vacant s" l]
      by (auto simp: rooms_Room_set_status)
  qed
  have view: "rooms (snd (update_lease_tenant k (Some tid) s)) =
        map (\<lambda>r. if room_pk r = lease_room l0 then r\<lparr>room_status := Vacant\<rparr> else r) (rooms s)
      \<and> (\<forall>x\<in>set (leases s). lease_pk x \<noteq> Some k \<longrightarrow>
            x \<in> set (leases (snd (update_lease_tenant k (Some tid) s))))"
    if h: "find (\<lambda>x. lease_pk x = Some k) (leases s) = Some l0" "k \<noteq> 0" "lease_status l0 = Ended"
      "end_date_after_start_date l0" "get_tenant s tid = Some t"
  proof -
    let ?l = "l0\<lparr>lease_tenant := tenant_pk t\<rparr>"
    from find_lease_pk[OF h(1)] have pk: "lease_pk l0 = Some k" by simp
    have p: "pk_set ?l" "lease_status ?l = Ended" "end_date_after_start_date ?l"
      using pk h(2,3,4) by (simp_all add: pk_set_def)
    have "snd (update_lease_tenant k (Some tid) s) = snd (Lease_save ?l s)"
      using h(1,5) by (simp add: update_lease_tenant_def split: prod.splits sum.splits)
    with gen[OF p] pk show ?thesis by simp
  qed
  from gen[of l] view show ?thesis by blast
qed

theorem ended_lease_save_vacates_room_witness:
  "active_leases scenario_reassign 1 = [ben_lease]
   \<and> rooms (snd (update_lease_tenant 1 (Some 9) scenario_reassign)) =
       [\<lparr>room_pk = 1, room_number = ''101'', room_status = Vacant\<rparr>]
   \<and> ben_lease \<in> set (active_leases (snd (update_lease_tenant 1 (Some 9) scenario_reassign)) 1)
   \<and> rooms (snd (Lease_save (old_lease\<lparr>monthly_rent := 4600\<rparr>) scenario_reassign)) =
       [\<lparr>room_pk = 1, room_number = ''101'', room_status = Vacant\<rparr>]"
proof -
  let ?s = scenario_reassign
  let ?l = "old_lease\<lparr>monthly_rent := 4600\<rparr>"
  have a: "active_leases ?s 1 = [ben_lease]"
    by (simp add: active_leases_def scenario_reassign_def old_lease_def ben_lease_def empty_db_def)
  have f: "find (\<lambda>x. lease_pk x = Some 1) (leases ?s) = Some old_lease"
    by (simp add: scenario_reassign_def old_lease_def empty_db_def)
  have o: "lease_status old_lease = Ended" "end_date_after_start_date old_lease" "(1::nat) \<noteq> 0"
    by (simp_all add: old_lease_def end_date_after_start_date_def)
  have p: "pk_set ?l" "lease_status ?l = Ended" "end_date_after_start_date ?l"
    by (simp_all add: old_lease_def end_date_after_start_date_def pk_set_def)
  have t: "get_tenant ?s 9 = Some chandra"
    by (simp add: get_tenant_def scenario_reassign_def empty_db_def asha_def ben_def chandra_def)
  have b: "ben_lease \<in> set (leases ?s)" "lease_pk ben_lease \<noteq> Some 1"
    "lease_room ben_lease = 1" "lease_status ben_lease = Active"
    by (simp_all add: scenario_reassign_def ben_lease_def empty_db_def)
  have r: "map (\<lambda>r. if room_pk r = lease_room ?l then r\<lparr>room_status := Vacant\<rparr> else r) (rooms ?s)
           = [\<lparr>room_pk = 1, room_number = ''101'', room_status = Vacant\<rparr>]"
    "map (\<lambda>r. if room_pk r = lease_room old_lease then r\<lparr>room_status := Vacant\<rparr> else r) (rooms ?s)
           = [\<lparr>room_pk = 1, room_number = ''101'', room_status = Vacant\<rparr>]"
    by (simp_all add: scenario_reassign_def empty_db_def old_lease_def)
  note inst = ended_lease_save_vacates_room[of ?l ?s 1 old_lease 9 chandra]
  from inst p have r1: "rooms (snd (Lease_save ?l ?s)) =
       [\<lparr>room_pk = 1, room_number = ''101'', room_status = Vacant\<rparr>]"
    unfolding r by blast
  from inst f o t have r2: "rooms (snd (update_lease_tenant 1 (Some 9) ?s)) =
       [\<lparr>room_pk = 1, room_number = ''101'', room_status = Vacant\<rparr>]"
    and k: "\<forall>x\<in>set (leases ?s). lease_pk x \<noteq> Some 1 \<longrightarrow>
            x \<in> set (leases (snd (update_lease_tenant 1 (Some 9) ?s)))"
    unfolding r by blast+
  from k b have "ben_lease \<in> set (active_leases (snd (update_lease_tenant 1 (Some 9) ?s)) 1)"
    by (simp add: active_leases_def)
  with a r1 r2 show ?thesis by blast
qed

section \<open>Properties of invoicing and of the room badge\<close>

subsection \<open>Electricity invoices\<close>

lemma order_by_desc_single [simp]: "order_by_desc k [x] = [x]"
  by (simp add: order_by_desc_def)

lemma first_Cons [simp]: "first (x # xs) = Some x"
  by (simp add: first_def)

lemma generate_existing:
  assumes "get_room s rid = Some rm" and "valid_date (y, m, 1)"
    and "first (order_by_desc invoice_month (electricity_invoices s rid y m)) = Some e"
  shows "generate_electricity_invoice rid y m s =
           (JsonResponse ''Invoice already exists'' (invoice_pk e), s)"
  using assms get_room_pk[OF assms(1)]
  by (simp add: generate_electricity_invoice_def date_def electricity_invoices_def)

lemma generate_creates:
  assumes "get_room s rid = Some rm" and "valid_date (y, m, 1)"
    and "electricity_invoices s rid y m = []"
    and "calc_month_bill rid y m s = Inr b" and "bill_error b = None"
    and "total b = Finite t" and "rate b = Finite r"
  shows "generate_electricity_invoice rid y m s =
           (JsonResponse ''Invoice created successfully'' (invoice_seq s),
            InvoiceItem_create (invoice_seq s)
              (ElectricityBill (y, m) (previous_reading b) (current_reading b) (units b) r)
              (units b) r t
              (s\<lparr>invoices := invoices s @
                    [\<lparr>invoice_pk = invoice_seq s, invoice_room = rid, invoice_month = (y, m, 1),
                      invoice_type = Electricity, subtotal = t, tax = 0,
                      invoice_total = t\<rparr>],
                 invoice_seq := Suc (invoice_seq s)\<rparr>))"
  using assms get_room_pk[OF assms(1)]
  by (simp add: generate_electricity_invoice_def date_def electricity_invoices_def Invoice_create_def
      DecimalField_to_python_def Let_def)

lemma DecimalField_to_python_cases:
  obtains (finite) x where "d = Finite x" "DecimalField_to_python d = Inr x"
  | (refused) "\<forall>x. d \<noteq> Finite x"
      "DecimalField_to_python d = Inl (ValidationError ''value must be a decimal number.'')"
  by (cases d) (simp_all add: DecimalField_to_python_def)

lemma generate_cases:
  obtains
    (missing) "get_room s rid = None"
  | (exists) rm e where "get_room s rid = Some rm" "valid_date (y, m, 1)"
      "first (order_by_desc invoice_month (electricity_invoices s rid y m)) = Some e"
  | (creates) rm b t r where "get_room s rid = Some rm" "valid_date (y, m, 1)"
      "electricity_invoices s rid y m = []" "calc_month_bill rid y m s = Inr b" "bill_error b = None"
      "total b = Finite t" "rate b = Finite r"
  | (fails) rm msg where "get_room s rid = Some rm"
      "generate_electricity_invoice rid y m s = (JsonError msg, s)"
  | (raised) rm err where "get_room s rid = Some rm"
      "generate_electricity_invoice rid y m s = (Raised err, s)"
proof (cases "get_room s rid")
  case None
  then show ?thesis by (rule missing)
next
  case (Some rm)
  note pk = get_room_pk[OF Some]
  show ?thesis
  proof (cases "valid_date (y, m, 1)")
    case False
    with Some have "generate_electricity_invoice rid y m s = (JsonError ''date value out of range'', s)"
      by (simp add: generate_electricity_invoice_def date_def)
    with Some show ?thesis by (rule fails)
  next
    case True
    show ?thesis
    proof (cases "first (order_by_desc invoice_month (electricity_invoices s rid y m))")
      case (Some e)
      with \<open>get_room s rid = Some rm\<close> True show ?thesis by (rule exists)
    next
      case None
      then have emp: "electricity_invoices s rid y m = []" by simp
      show ?thesis
      proof (cases "calc_month_bill rid y m s")
        case (Inl err)
        then have "generate_electricity_invoice rid y m s = (JsonError (case err of ValueError msg \<Rightarrow> msg | _ \<Rightarrow> []), s)
           \<or> generate_electricity_invoice rid y m s = (Raised err, s)"
          using \<open>get_room s rid = Some rm\<close> True emp pk
          by (cases err) (simp_all add: generate_electricity_invoice_def date_def electricity_invoices_def)
        then show ?thesis using fails[OF \<open>get_room s rid = Some rm\<close>] raised[OF \<open>get_room s rid = Some rm\<close>]
          by blast
      next
        case (Inr b)
        show ?thesis
        proof (cases "bill_error b")
          case None
          show ?thesis
          proof (cases rule: DecimalField_to_python_cases[where d = "total b"])
            case (finite t)
            with calc_month_bill_finite[OF Inr None] obtain r where r: "rate b = Finite r" by blast
            from \<open>get_room s rid = Some rm\<close> True emp Inr None finite(1) r show ?thesis
              by (rule creates)
          next
            case refused
            with None have "generate_electricity_invoice rid y m s =
                (Raised (ValidationError ''value must be a decimal number.''), s)"
              using \<open>get_room s rid = Some rm\<close> True emp pk Inr
              by (simp add: generate_electricity_invoice_def date_def electricity_invoices_def)
            with \<open>get_room s rid = Some rm\<close> show ?thesis by (rule raised)
          qed
        next
          case (Some msg)
          then have "generate_electricity_invoice rid y m s = (JsonError msg, s)"
            using \<open>get_room s rid = Some rm\<close> True emp pk Inr
            by (simp add: generate_electricity_invoice_def date_def electricity_invoices_def)
          with \<open>get_room s rid = Some rm\<close> show ?thesis by (rule fails)
        qed
      qed
    qed
  qed
qed

lemma get_room_InvoiceItem_create [simp]:
  "get_room (InvoiceItem_create iid lbl q r a s) rid = get_room s rid"
  by (simp add: get_room_def InvoiceItem_create_def)

lemma rooms_InvoiceItem_create [simp]:
  "rooms (InvoiceItem_create iid lbl q r a s) = rooms s"
  by (simp add: InvoiceItem_create_def)

lemma invoices_InvoiceItem_create [simp]:
  "invoices (InvoiceItem_create iid lbl q r a s) = invoices s"
  by (simp add: InvoiceItem_create_def)

lemma electricity_invoices_InvoiceItem_create [simp]:
  "electricity_invoices (InvoiceItem_create iid lbl q r a s) rid y m = electricity_invoices s rid y m"
  by (simp add: electricity_invoices_def)

lemma unique_together_count:
  "invoice_unique_together (invoices s) \<Longrightarrow> length (electricity_invoices s rid y m) \<le> 1"
proof -
  assume "invoice_unique_together (invoices s)"
  then have "distinct (map (\<lambda>i. (invoice_room i, invoice_month i, invoice_type i))
                 (filter (\<lambda>_. True) (invoices s)))"
    by (simp add: invoice_unique_together_def)
  from this[unfolded distinct_map_filter_count]
  have "length (filter (\<lambda>i. (invoice_room i, invoice_month i, invoice_type i)
                        = (rid, (y, m, 1), Electricity) \<and> True) (invoices s)) \<le> 1"
    by blast
  then show ?thesis by (simp add: electricity_invoices_def)
qed

lemma generate_twice:
  "snd (generate_electricity_invoice rid y m (snd (generate_electricity_invoice rid y m s)))
     = snd (generate_electricity_invoice rid y m s)
   \<and> (fst (generate_electricity_invoice rid y m s) = JsonResponse msg i \<longrightarrow>
        fst (generate_electricity_invoice rid y m (snd (generate_electricity_invoice rid y m s)))
          = JsonResponse ''Invoice already exists'' i
        \<and> (\<exists>e. e \<in> set (electricity_invoices (snd (generate_electricity_invoice rid y m s)) rid y m)
                \<and> invoice_pk e = i)
        \<and> (length (electricity_invoices s rid y m) \<le> 1 \<longrightarrow>
             length (electricity_invoices (snd (generate_electricity_invoice rid y m s)) rid y m) = 1))"
proof (cases rule: generate_cases[where s = s and rid = rid and y = y and m = m])
  case missing
  then show ?thesis by (simp add: generate_electricity_invoice_def)
next
  case (exists rm e)
  note g = generate_existing[OF exists]
  from first_Some_mem[OF exists(3)] have mem: "e \<in> set (electricity_invoices s rid y m)" by simp
  then have "0 < length (electricity_invoices s rid y m)" by (cases "electricity_invoices s rid y m") auto
  then have "length (electricity_invoices s rid y m) \<le> 1 \<longrightarrow> length (electricity_invoices s rid y m) = 1"
    by linarith
  with g mem show ?thesis by auto
next
  case (creates rm b t r)
  define new where "new = \<lparr>invoice_pk = invoice_seq s, invoice_room = rid, invoice_month = (y, m, 1),
                invoice_type = Electricity, subtotal = t, tax = 0, invoice_total = t\<rparr>"
  define s1 where "s1 = snd (generate_electricity_invoice rid y m s)"
  note g = generate_creates[OF creates]
  have g1: "generate_electricity_invoice rid y m s =
              (JsonResponse ''Invoice created successfully'' (invoice_pk new), s1)"
    unfolding s1_def g new_def by simp
  have r1: "get_room s1 rid = Some rm"
    unfolding s1_def g using creates(1) by (simp add: get_room_def)
  have e1: "electricity_invoices s1 rid y m = [new]"
    unfolding s1_def g new_def using creates(3) by (simp add: electricity_invoices_def)
  then have f1: "first (order_by_desc invoice_month (electricity_invoices s1 rid y m)) = Some new"
    by simp
  note g2 = generate_existing[OF r1 creates(2) f1]
  show ?thesis
    unfolding s1_def[symmetric] unfolding g1 g2 e1 by auto
next
  case (fails rm msg')
  then show ?thesis by simp
next
  case (raised rm err)
  then show ?thesis by simp
qed

lemma api_existing:
  assumes "rid \<noteq> 0" and "valid_date (y, m, 1)"
    and "first (order_by_desc invoice_month (electricity_invoices s rid y m)) = Some e"
  shows "electricity_invoice_create rid y m s = (ApiResponse 200 ''Invoice already exists'' e, s)"
  using assms
  by (simp add: electricity_invoice_create_def date_def electricity_invoices_def)

lemma api_creates:
  assumes "rid \<noteq> 0" and "valid_date (y, m, 1)"
    and "electricity_invoices s rid y m = []"
    and "calc_month_bill rid y m s = Inr b" and "bill_error b = None"
    and "total b = Finite t" and "rate b = Finite r"
  shows "electricity_invoice_create rid y m s =
           (ApiResponse 201 ''Invoice created successfully''
              \<lparr>invoice_pk = invoice_seq s, invoice_room = rid, invoice_month = (y, m, 1),
               invoice_type = Electricity, subtotal = t, tax = 0, invoice_total = t\<rparr>,
            InvoiceItem_create (invoice_seq s)
              (ElectricityBill (y, m) (previous_reading b) (current_reading b) (units b) r)
              (units b) r t
              (s\<lparr>invoices := invoices s @
                    [\<lparr>invoice_pk = invoice_seq s, invoice_room = rid, invoice_month = (y, m, 1),
                      invoice_type = Electricity, subtotal = t, tax = 0,
                      invoice_total = t\<rparr>],
                 invoice_seq := Suc (invoice_seq s)\<rparr>))"
  using assms
  by (simp add: electricity_invoice_create_def date_def electricity_invoices_def Invoice_create_def
      DecimalField_to_python_def atomic_def Let_def)

lemma api_cases:
  obtains
    (exists) e where "rid \<noteq> 0" "valid_date (y, m, 1)"
      "first (order_by_desc invoice_month (electricity_invoices s rid y m)) = Some e"
  | (creates) b t r where "rid \<noteq> 0" "valid_date (y, m, 1)"
      "electricity_invoices s rid y m = []" "calc_month_bill rid y m s = Inr b" "bill_error b = None"
      "total b = Finite t" "rate b = Finite r"
  | (fails) msg where "electricity_invoice_create rid y m s = (JsonError msg, s)"
  | (raised) err where "electricity_invoice_create rid y m s = (Raised err, s)"
proof (cases "rid = 0")
  case True
  then have "electricity_invoice_create rid y m s = (JsonError ''room_id and month are required'', s)"
    by (simp add: electricity_invoice_create_def)
  then show ?thesis by (rule fails)
next
  case nz: False
  show ?thesis
  proof (cases "valid_date (y, m, 1)")
    case False
    with nz have "electricity_invoice_create rid y m s = (JsonError ''date value out of range'', s)"
      by (simp add: electricity_invoice_create_def date_def)
    then show ?thesis by (rule fails)
  next
    case True
    show ?thesis
    proof (cases "first (order_by_desc invoice_month (electricity_invoices s rid y m))")
      case (Some e)
      with nz True show ?thesis by (rule exists)
    next
      case None
      then have emp: "electricity_invoices s rid y m = []" by simp
      show ?thesis
      proof (cases "calc_month_bill rid y m s")
        case (Inl err)
        then have "electricity_invoice_create rid y m s = (JsonError (case err of ValueError msg \<Rightarrow> msg | _ \<Rightarrow> []), s)
           \<or> electricity_invoice_create rid y m s = (Raised err, s)"
          using nz True emp
          by (cases err) (simp_all add: electricity_invoice_create_def date_def electricity_invoices_def)
        then show ?thesis using fails raised by blast
      next
        case (Inr b)
        show ?thesis
        proof (cases "bill_error b")
          case None
          show ?thesis
          proof (cases rule: DecimalField_to_python_cases[where d = "total b"])
            case (finite t)
            with calc_month_bill_finite[OF Inr None] obtain r where r: "rate b = Finite r" by blast
            from nz True emp Inr None finite(1) r show ?thesis
              by (rule creates)
          next
            case refused
            with None have "electricity_invoice_create rid y m s =
                (Raised (ValidationError ''value must be a decimal number.''), s)"
              using nz True emp Inr
              by (simp add: electricity_invoice_create_def date_def electricity_invoices_def atomic_def)
            then show ?thesis by (rule raised)
          qed
        next
          case (Some msg)
          then have "electricity_invoice_create rid y m s = (JsonError msg, s)"
            using nz True emp Inr
            by (simp add: electricity_invoice_create_def date_def electricity_invoices_def)
          then show ?thesis by (rule fails)
        qed
      qed
    qed
  qed
qed

lemma api_twice:
  "snd (electricity_invoice_create rid y m (snd (electricity_invoice_create rid y m s)))
     = snd (electricity_invoice_create rid y m s)
   \<and> (fst (electricity_invoice_create rid y m s) = ApiResponse st msg i \<longrightarrow>
        fst (electricity_invoice_create rid y m (snd (electricity_invoice_create rid y m s)))
          = ApiResponse 200 ''Invoice already exists'' i
        \<and> i \<in> set (electricity_invoices (snd (electricity_invoice_create rid y m s)) rid y m)
        \<and> (length (electricity_invoices s rid y m) \<le> 1 \<longrightarrow>
             electricity_invoices (snd (electricity_invoice_create rid y m s)) rid y m = [i]))"
proof (cases rule: api_cases[where s = s and rid = rid and y = y and m = m])
  case (exists e)
  note g = api_existing[OF exists]
  from first_Some_mem[OF exists(3)] have mem: "e \<in> set (electricity_invoices s rid y m)" by simp
  have "length (electricity_invoices s rid y m) \<le> 1 \<longrightarrow> electricity_invoices s rid y m = [e]"
    using mem by (cases "electricity_invoices s rid y m") auto
  with g mem show ?thesis by auto
next
  case (creates b t r)
  define new where "new = \<lparr>invoice_pk = invoice_seq s, invoice_room = rid, invoice_month = (y, m, 1),
                invoice_type = Electricity, subtotal = t, tax = 0, invoice_total = t\<rparr>"
  define s1 where "s1 = snd (electricity_invoice_create rid y m s)"
  note g = api_creates[OF creates]
  have g1: "electricity_invoice_create rid y m s =
              (ApiResponse 201 ''Invoice created successfully'' new, s1)"
    unfolding s1_def g new_def by simp
  have e1: "electricity_invoices s1 rid y m = [new]"
    unfolding s1_def g new_def using creates(3) by (simp add: electricity_invoices_def)
  then have f1: "first (order_by_desc invoice_month (electricity_invoices s1 rid y m)) = Some new"
    by simp
  note g2 = api_existing[OF creates(1,2) f1]
  show ?thesis
    unfolding s1_def[symmetric] unfolding g1 g2 e1 by auto
next
  case (fails msg')
  then show ?thesis by simp
next
  case (raised err)
  then show ?thesis by simp
qed

lemma singleton_from_member:
  "x \<in> set xs \<Longrightarrow> length xs \<le> 1 \<Longrightarrow> xs = [x]"
  by (cases xs) auto

text \<open>
  Claim C5. Creating the electricity invoice of a room and month twice: the second call
  changes nothing, and when the first call answers with an invoice, the second call
  answers \<open>Invoice already exists\<close> with that same invoice (its id from the view, its data
  from the API endpoint), and the room has exactly one electricity invoice for the month.
  The hypothesis is the model's \<^verbatim>\<open>unique_together\<close> constraint on the stored invoices. A
  first call that fails (unknown room, readings going backwards) writes nothing either.
\<close>

theorem electricity_invoice_idempotent:
  "invoice_unique_together (invoices s) \<Longrightarrow>
   snd (generate_electricity_invoice rid y m (snd (generate_electricity_invoice rid y m s)))
     = snd (generate_electricity_invoice rid y m s)
   \<and> (fst (generate_electricity_invoice rid y m s) = JsonResponse msg i \<longrightarrow>
        fst (generate_electricity_invoice rid y m (snd (generate_electricity_invoice rid y m s)))
          = JsonResponse ''Invoice already exists'' i
        \<and> (\<exists>e. invoice_pk e = i \<and>
              electricity_invoices
                (snd (generate_electricity_invoice rid y m (snd (generate_electricity_invoice rid y m s))))
                rid y m = [e]))
   \<and> snd (electricity_invoice_create rid y m (snd (electricity_invoice_create rid y m s)))
     = snd (electricity_invoice_create rid y m s)
   \<and> (fst (electricity_invoice_create rid y m s) = ApiResponse st msg' data \<longrightarrow>
        fst (electricity_invoice_create rid y m (snd (electricity_invoice_create rid y m s)))
          = ApiResponse 200 ''Invoice already exists'' data
        \<and> electricity_invoices
              (snd (electricity_invoice_create rid y m (snd (electricity_invoice_create rid y m s))))
              rid y m = [data])"
proof -
  assume u: "invoice_unique_together (invoices s)"
  note le = unique_together_count[OF u, of rid y m]
  note v = generate_twice[of rid y m s msg i]
  note a = api_twice[of rid y m s st msg' data]
  from v have v1: "snd (generate_electricity_invoice rid y m (snd (generate_electricity_invoice rid y m s)))
     = snd (generate_electricity_invoice rid y m s)" by blast
  from a have a1: "snd (electricity_invoice_create rid y m (snd (electricity_invoice_create rid y m s)))
     = snd (electricity_invoice_create rid y m s)" by blast
  have v2: "fst (generate_electricity_invoice rid y m (snd (generate_electricity_invoice rid y m s)))
          = JsonResponse ''Invoice already exists'' i
        \<and> (\<exists>e. invoice_pk e = i \<and>
              electricity_invoices
                (snd (generate_electricity_invoice rid y m (snd (generate_electricity_invoice rid y m s))))
                rid y m = [e])"
    if h: "fst (generate_electricity_invoice rid y m s) = JsonResponse msg i"
  proof -
    from v h le obtain e where
      r: "fst (generate_electricity_invoice rid y m (snd (generate_electricity_invoice rid y m s)))
          = JsonResponse ''Invoice already exists'' i"
      and e: "e \<in> set (electricity_invoices (snd (generate_electricity_invoice rid y m s)) rid y m)"
        "invoice_pk e = i"
      and l: "length (electricity_invoices (snd (generate_electricity_invoice rid y m s)) rid y m) = 1"
      by blast
    from singleton_from_member[OF e(1)] l
    have "electricity_invoices (snd (generate_electricity_invoice rid y m s)) rid y m = [e]" by simp
    with r e(2) show ?thesis unfolding v1 by blast
  qed
  have a2: "fst (electricity_invoice_create rid y m (snd (electricity_invoice_create rid y m s)))
          = ApiResponse 200 ''Invoice already exists'' data
        \<and> electricity_invoices
              (snd (electricity_invoice_create rid y m (snd (electricity_invoice_create rid y m s))))
              rid y m = [data]"
    if h: "fst (electricity_invoice_create rid y m s) = ApiResponse st msg' data"
    using a h le unfolding a1 by blast
  from v1 v2 a1 a2 show ?thesis by blast
qed

lemma scenario_A_facts:
  "get_room scenario_A 1 = Some \<lparr>room_pk = 1, room_number = ''101'', room_status = Vacant\<rparr>"
  "valid_date (2024, 2, 1)"
  "electricity_invoices scenario_A 1 2024 2 = []"
  "invoice_unique_together (invoices scenario_A)"
  "invoice_seq scenario_A = 1"
  by (simp_all add: get_room_def scenario_A_def empty_db_def valid_date_def year_of_def month_of_def
      day_of_def days_in_month_def electricity_invoices_def invoice_unique_together_def)

theorem electricity_invoice_idempotent_witness:
  "fst (generate_electricity_invoice 1 2024 2 scenario_A)
     = JsonResponse ''Invoice created successfully'' 1
   \<and> fst (generate_electricity_invoice 1 2024 2 (snd (generate_electricity_invoice 1 2024 2 scenario_A)))
     = JsonResponse ''Invoice already exists'' 1
   \<and> snd (generate_electricity_invoice 1 2024 2 (snd (generate_electricity_invoice 1 2024 2 scenario_A)))
     = snd (generate_electricity_invoice 1 2024 2 scenario_A)
   \<and> length (electricity_invoices
        (snd (generate_electricity_invoice 1 2024 2 (snd (generate_electricity_invoice 1 2024 2 scenario_A))))
        1 2024 2) = 1
   \<and> fst (electricity_invoice_create 1 2024 2 (snd (electricity_invoice_create 1 2024 2 scenario_A)))
     = ApiResponse 200 ''Invoice already exists''
         \<lparr>invoice_pk = 1, invoice_room = 1, invoice_month = (2024, 2, 1),
          invoice_type = Electricity, subtotal = 525, tax = 0, invoice_total = 525\<rparr>
   \<and> electricity_invoices
        (snd (electricity_invoice_create 1 2024 2 (snd (electricity_invoice_create 1 2024 2 scenario_A))))
        1 2024 2
     = [\<lparr>invoice_pk = 1, invoice_room = 1, invoice_month = (2024, 2, 1),
         invoice_type = Electricity, subtotal = 525, tax = 0, invoice_total = 525\<rparr>]"
proof -
  have g: "fst (generate_electricity_invoice 1 2024 2 scenario_A)
     = JsonResponse ''Invoice created successfully'' 1"
    using generate_creates[OF scenario_A_facts(1,2,3) scenario_A_bill, where t = 525 and r = "21 / 2"]
    by (simp add: scenario_A_facts)
  have one: "(1::nat) \<noteq> 0" by simp
  have a: "fst (electricity_invoice_create 1 2024 2 scenario_A)
     = ApiResponse 201 ''Invoice created successfully''
         \<lparr>invoice_pk = 1, invoice_room = 1, invoice_month = (2024, 2, 1),
          invoice_type = Electricity, subtotal = 525, tax = 0, invoice_total = 525\<rparr>"
    using api_creates[OF one scenario_A_facts(2,3) scenario_A_bill, where t = 525 and r = "21 / 2"]
    by (simp add: scenario_A_facts)
  from electricity_invoice_idempotent[OF scenario_A_facts(4), of 1 2024 2
      "''Invoice created successfully''" 1 201 "''Invoice created successfully''"
      "\<lparr>invoice_pk = 1, invoice_room = 1, invoice_month = (2024, 2, 1),
          invoice_type = Electricity, subtotal = 525, tax = 0, invoice_total = 525\<rparr>"] g a
  show ?thesis by auto
qed

subsection \<open>The monthly invoice of the invoice service\<close>

text \<open>
  Claim C4 at a concrete input: rent 5000 and 50 units at 10.50. The invoice has the
  subtotal 5525, one rent item and one electricity item, but its type is \<open>Rent\<close>: the
  service writes \<^verbatim>\<open>type='rent'\<close> whatever the electricity amount is, where the view
  \<^verbatim>\<open>create_bill\<close> writes \<^verbatim>\<open>'combined' if elec_amount_decimal > 0 else 'rent'\<close>.
\<close>

theorem create_monthly_invoice_typed_rent:
  "create_monthly_invoice room_101 (2024, 2, 1) 5000 (Some 50) (Some (21 / 2)) scenario_C =
     (Inr \<lparr>invoice_pk = 2, invoice_room = 1, invoice_month = (2024, 2, 1), invoice_type = Rent,
           subtotal = 5525, tax = 0, invoice_total = 5525\<rparr>,
      scenario_C
        \<lparr>invoices := invoices scenario_C @
           [\<lparr>invoice_pk = 2, invoice_room = 1, invoice_month = (2024, 2, 1), invoice_type = Rent,
             subtotal = 5525, tax = 0, invoice_total = 5525\<rparr>],
         invoice_items := invoice_items scenario_C @
           [\<lparr>item_pk = 2, item_invoice = 2, item_label = RentFor (2024, 2, 1), qty = 1,
             item_rate = 5000, item_amount = 5000\<rparr>,
            \<lparr>item_pk = 3, item_invoice = 2, item_label = ElectricityUnits 50, qty = 50,
             item_rate = 21 / 2, item_amount = 525\<rparr>],
         invoice_seq := 3, item_seq := 4\<rparr>)"
  by (simp add: create_monthly_invoice_def atomic_def Invoice_create_def InvoiceItem_create_def
      Let_def scenario_C_def room_101_def)

subsection \<open>The badge of a room\<close>

lemma first_order_by_desc_max:
  "first (order_by_desc k xs) = Some x \<Longrightarrow> \<forall>y\<in>set xs. k y \<le> k x"
proof (induction xs arbitrary: x)
  case Nil
  then show ?case by simp
next
  case (Cons a xs)
  show ?case
  proof (cases "order_by_desc k xs")
    case Nil
    with Cons.prems show ?thesis by (simp add: order_by_desc_Cons)
  next
    case (Cons y ys)
    then have "first (order_by_desc k xs) = Some y" by simp
    from Cons.IH[OF this] have mx: "\<forall>z\<in>set xs. k z \<le> k y" .
    from Cons.prems Cons have x: "x = (if k y \<le> k a then a else y)"
      by (simp add: order_by_desc_Cons split: if_splits)
    show ?thesis
    proof (cases "k y \<le> k a")
      case True
      with x mx show ?thesis by auto
    next
      case False
      with x mx show ?thesis by auto
    qed
  qed
qed

lemma first_take [simp]: "0 < n \<Longrightarrow> first (take n xs) = first xs"
  by (cases xs; cases n) (simp_all add: first_def)

lemma days_in_month_ge: "28 \<le> days_in_month y m"
  by (simp add: days_in_month_def)

lemma next_day_in_month:
  "d < 28 \<Longrightarrow> next_day (y, m, d) = (y, m, d + 1)"
  using days_in_month_ge[of y m] by (simp add: next_day_def year_of_def month_of_def day_of_def)

lemma prev_day_in_month:
  "1 < d \<Longrightarrow> prev_day (y, m, d) = (y, m, d - 1)"
  by (simp add: prev_day_def year_of_def month_of_def day_of_def)

lemma valid_date_day:
  "valid_date (y, m, 1) \<Longrightarrow> 1 \<le> d \<Longrightarrow> d \<le> 28 \<Longrightarrow> valid_date (y, m, d)"
  using days_in_month_ge[of y m] by (simp add: valid_date_def year_of_def month_of_def day_of_def)

lemma due_date_of_first:
  assumes "valid_date (y, m, 1)"
  shows "add_days (y, m, 1) 5 = Inr (y, m, 6)" and "sub_days (y, m, 6) 3 = Inr (y, m, 3)"
proof -
  have v: "valid_date (y, m, 2)" "valid_date (y, m, 3)" "valid_date (y, m, 4)"
    "valid_date (y, m, 5)" "valid_date (y, m, 6)"
    using assms by (simp_all add: valid_date_day)
  have five: "(5::nat) = Suc (Suc (Suc (Suc (Suc 0))))" and three: "(3::nat) = Suc (Suc (Suc 0))"
    by simp_all
  show "add_days (y, m, 1) 5 = Inr (y, m, 6)"
    unfolding five using v by (simp add: next_day_in_month)
  show "sub_days (y, m, 6) 3 = Inr (y, m, 3)"
    unfolding three using v by (simp add: prev_day_in_month)
qed

lemma snapshot_with_invoice:
  assumes a: "(case prefetched_leases of Some ls \<Rightarrow> first ls
               | None \<Rightarrow> first (order_by_desc start_date (active_leases s (room_pk rm)))) = Some al"
    and i: "first (case prefetched_invoices of Some cur \<Rightarrow> cur
               | None \<Rightarrow> take 6 (order_by_desc invoice_month
                           (filter (\<lambda>i. invoice_room i = room_pk rm) (invoices s)))) = Some last_inv"
    and d: "add_days (invoice_month last_inv) 5 = Inr due_date"
    and d3: "sub_days due_date 3 = Inr soon"
  shows "get_room_finance_snapshot rm prefetched_leases prefetched_invoices today s =
           Inr \<lparr>active_lease = Some al, last_invoice = Some last_inv,
                last_invoice_paid = Some (payment_in_month s al (invoice_month last_inv)),
                last_invoice_due_date = Some due_date,
                badge = (if payment_in_month s al (invoice_month last_inv) then OK
                         else if due_date < today then Overdue
                         else if soon < today then DueSoon
                         else OK)\<rparr>"
proof -
  have pe: "(filter (\<lambda>p. Some (payment_lease p) = lease_pk al
                                 \<and> year_of (paid_on p) = year_of (invoice_month last_inv)
                                 \<and> month_of (paid_on p) = month_of (invoice_month last_inv))
                         (rent_payments s) \<noteq> []) = payment_in_month s al (invoice_month last_inv)"
    by (auto simp: payment_in_month_def filter_empty_conv)
  show ?thesis
    using a[unfolded active_leases_def] i d d3
    by (simp add: get_room_finance_snapshot_def pe)
qed

text \<open>
  The badge as a function of the invoice the snapshot looks at. For a room with an active
  lease the snapshot takes the first active lease and the first invoice of its lists;
  without a prefetched list of invoices that invoice is one of the latest month. With the
  due date five days after that month and no payment of the lease dated in the invoice's
  year and month, the badge is Overdue when today is after the due date, Due Soon when
  today is later than three days before the due date, and OK otherwise; with such a payment
  it is OK. For an invoice dated the first of a month the due date is the 6th, so the badge
  is Overdue from the 7th on and Due Soon on the 4th, 5th and 6th.
\<close>

lemma room_badge_from_first_invoice:
  "(case prefetched_leases of Some ls \<Rightarrow> first ls
    | None \<Rightarrow> first (order_by_desc start_date (active_leases s (room_pk rm)))) = Some al \<Longrightarrow>
   first (case prefetched_invoices of Some cur \<Rightarrow> cur
          | None \<Rightarrow> take 6 (order_by_desc invoice_month
                      (filter (\<lambda>i. invoice_room i = room_pk rm) (invoices s)))) = Some last_inv \<Longrightarrow>
   (prefetched_invoices = None \<longrightarrow>
      (\<forall>i\<in>set (invoices s). invoice_room i = room_pk rm \<longrightarrow> invoice_month i \<le> invoice_month last_inv))
   \<and> (add_days (invoice_month last_inv) 5 = Inr due_date \<and> sub_days due_date 3 = Inr soon \<longrightarrow>
        map_sum id badge (get_room_finance_snapshot rm prefetched_leases prefetched_invoices today s) =
          Inr (if payment_in_month s al (invoice_month last_inv) then OK
               else if due_date < today then Overdue
               else if soon < today then DueSoon
               else OK))
   \<and> (invoice_month last_inv = (y, m, 1) \<and> valid_date (y, m, 1) \<longrightarrow>
        map_sum id badge (get_room_finance_snapshot rm prefetched_leases prefetched_invoices today s) =
          Inr (if payment_in_month s al (y, m, 1) then OK
               else if (y, m, 6) < today then Overdue
               else if (y, m, 3) < today then DueSoon
               else OK))"
proof -
  assume a: "(case prefetched_leases of Some ls \<Rightarrow> first ls
    | None \<Rightarrow> first (order_by_desc start_date (active_leases s (room_pk rm)))) = Some al"
    and i: "first (case prefetched_invoices of Some cur \<Rightarrow> cur
          | None \<Rightarrow> take 6 (order_by_desc invoice_month
                      (filter (\<lambda>i. invoice_room i = room_pk rm) (invoices s)))) = Some last_inv"
  have recent: "\<forall>i\<in>set (invoices s). invoice_room i = room_pk rm \<longrightarrow> invoice_month i \<le> invoice_month last_inv"
    if "prefetched_invoices = None"
  proof -
    from i that have "first (order_by_desc invoice_month
        (filter (\<lambda>i. invoice_room i = room_pk rm) (invoices s))) = Some last_inv"
      by simp
    from first_order_by_desc_max[OF this] show ?thesis by simp
  qed
  have gen: "map_sum id badge (get_room_finance_snapshot rm prefetched_leases prefetched_invoices today s) =
          Inr (if payment_in_month s al (invoice_month last_inv) then OK
               else if due_date < today then Overdue
               else if soon < today then DueSoon
               else OK)"
    if "add_days (invoice_month last_inv) 5 = Inr due_date" "sub_days due_date 3 = Inr soon"
    for due_date soon
    unfolding snapshot_with_invoice[OF a i that] by simp
  have fst_of_month: "map_sum id badge (get_room_finance_snapshot rm prefetched_leases prefetched_invoices today s) =
          Inr (if payment_in_month s al (y, m, 1) then OK
               else if (y, m, 6) < today then Overdue
               else if (y, m, 3) < today then DueSoon
               else OK)"
    if h: "invoice_month last_inv = (y, m, 1)" "valid_date (y, m, 1)"
    using gen[of "(y, m, 6)" "(y, m, 3)"] due_date_of_first[OF h(2)] h(1) by simp
  from recent gen[of due_date soon] fst_of_month show ?thesis by blast
qed

lemma scenario_D_facts:
  "first (order_by_desc start_date (active_leases scenario_D (room_pk room_101))) = Some asha_lease"
  "first (order_by_desc invoice_month
      (filter (\<lambda>i. invoice_room i = room_pk room_101) (invoices scenario_D)))
     = Some february_electricity"
  "first (order_by_desc start_date (active_leases scenario_D_paid (room_pk room_101))) = Some asha_lease"
  "first (order_by_desc invoice_month
      (filter (\<lambda>i. invoice_room i = room_pk room_101) (invoices scenario_D_paid)))
     = Some february_electricity"
  "invoice_month february_electricity = (2024, 2, 1)"
  "valid_date (2024, 2, 1)"
  "\<not> payment_in_month scenario_D asha_lease (2024, 2, 1)"
  "payment_in_month scenario_D_paid asha_lease (2024, 2, 1)"
  "january_rent \<in> set (invoices scenario_D)"
  "invoice_room january_rent = room_pk room_101"
  by (simp_all add: active_leases_def scenario_C_def scenario_D_def scenario_D_paid_def room_101_def
      january_rent_def february_electricity_def asha_lease_def payment_in_month_def valid_date_def
      year_of_def month_of_def day_of_def days_in_month_def order_by_desc_def)

lemma room_badge_scenario_D:
  "invoice_month january_rent \<le> invoice_month february_electricity
   \<and> add_days (invoice_month february_electricity) 5 = Inr (2024, 2, 6)
   \<and> sub_days (2024, 2, 6) 3 = Inr (2024, 2, 3)
   \<and> map_sum id badge (get_room_finance_snapshot room_101 None None (2024, 2, 16) scenario_D) = Inr Overdue
   \<and> map_sum id badge (get_room_finance_snapshot room_101 None None (2024, 2, 7) scenario_D) = Inr Overdue
   \<and> map_sum id badge (get_room_finance_snapshot room_101 None None (2024, 2, 6) scenario_D) = Inr DueSoon
   \<and> map_sum id badge (get_room_finance_snapshot room_101 None None (2024, 2, 4) scenario_D) = Inr DueSoon
   \<and> map_sum id badge (get_room_finance_snapshot room_101 None None (2024, 2, 3) scenario_D) = Inr OK
   \<and> map_sum id badge (get_room_finance_snapshot room_101 None None (2024, 2, 16) scenario_D_paid) = Inr OK"
proof -
  have sel: "(case None of Some ls \<Rightarrow> first ls
    | None \<Rightarrow> first (order_by_desc start_date (active_leases scenario_D (room_pk room_101))))
      = Some asha_lease"
    "first (case None of Some cur \<Rightarrow> cur
          | None \<Rightarrow> take 6 (order_by_desc invoice_month
                      (filter (\<lambda>i. invoice_room i = room_pk room_101) (invoices scenario_D))))
      = Some february_electricity"
    "(case None of Some ls \<Rightarrow> first ls
    | None \<Rightarrow> first (order_by_desc start_date (active_leases scenario_D_paid (room_pk room_101))))
      = Some asha_lease"
    "first (case None of Some cur \<Rightarrow> cur
          | None \<Rightarrow> take 6 (order_by_desc invoice_month
                      (filter (\<lambda>i. invoice_room i = room_pk room_101) (invoices scenario_D_paid))))
      = Some february_electricity"
    using scenario_D_facts(1-4) by simp_all
  have due: "add_days (invoice_month february_electricity) 5 = Inr (2024, 2, 6)"
    "sub_days (2024, 2, 6) 3 = Inr (2024, 2, 3)"
    using due_date_of_first[OF scenario_D_facts(6)] by (simp_all add: scenario_D_facts(5))
  note t = room_badge_from_first_invoice[OF sel(1,2)]
  from t[THEN conjunct1, rule_format, OF refl scenario_D_facts(9,10)]
  have recent: "invoice_month january_rent \<le> invoice_month february_electricity" .
  note g = t[THEN conjunct2, THEN conjunct1, rule_format, OF conjI, OF due]
  note c = t[THEN conjunct2, THEN conjunct2, rule_format, OF conjI, OF scenario_D_facts(5,6)]
  note p = room_badge_from_first_invoice[OF sel(3,4), THEN conjunct2, THEN conjunct2,
      rule_format, OF conjI, OF scenario_D_facts(5,6)]
  show ?thesis
    using recent due g[of "(2024, 2, 16)"] c[of "(2024, 2, 7)"] c[of "(2024, 2, 6)"]
      c[of "(2024, 2, 4)"] c[of "(2024, 2, 3)"] p[of "(2024, 2, 16)"] scenario_D_facts(5,7,8)
    by simp
qed

text \<open>
  Claim C9 at a concrete input: room 101 has an active lease, a rent invoice for January
  2024 with a payment of the lease dated in January, and an electricity invoice for
  February 2024 with no payment dated in February; there is no invoice for March. On 16
  March 2024 the most recent invoice of the room is the one of February, it is unpaid and
  its due date, 6 February, is past. \<^verbatim>\<open>building_details\<close> prefetches the invoices of the
  current month only, finds none and gives the room the badge OK, where the snapshot
  without prefetched lists, as \<^verbatim>\<open>building_floor_partial\<close> takes it, gives Overdue.
\<close>

theorem building_details_badge_current_month_only:
  "rooms scenario_D = [\<lparr>room_pk = 1, room_number = ''101'', room_status = Occupied\<rparr>]
   \<and> first (order_by_desc start_date (active_leases scenario_D 1)) = Some asha_lease
   \<and> first (order_by_desc invoice_month
         (filter (\<lambda>i. invoice_room i = 1) (invoices scenario_D))) = Some february_electricity
   \<and> \<not> payment_in_month scenario_D asha_lease (invoice_month february_electricity)
   \<and> add_days (invoice_month february_electricity) 5 = Inr (2024, 2, 6)
   \<and> (2024, 2, 6) < ((2024, 3, 16) :: date)
   \<and> map (map_sum id badge) (building_details (2024, 3, 16) scenario_D) = [Inr OK]
   \<and> map (map_sum id badge) (building_floor_partial (2024, 3, 16) scenario_D) = [Inr Overdue]"
  by code_simp

end
